theory Spec2Isabelle
  imports Complex_Main "HOL-Library.Multiset" "HOL-Library.Log_Nat"
begin

section \<open>Strings\<close>

text \<open>
  A JavaScript string is a sequence of UTF-16 code units, here natural numbers. A literal
  of the source is written \<open>utf16 ''...''\<close>.
\<close>

type_synonym jstring = "nat list"

definition utf16 :: "string \<Rightarrow> jstring" where
  "utf16 s = map of_char s"

text \<open>
  The code units that \<^verbatim>\<open>String.prototype.trim\<close> strips: the WhiteSpace and LineTerminator
  code points of ECMAScript (TAB, LF, VT, FF, CR, SP, NBSP, U+1680, U+2000 to U+200A, U+2028,
  U+2029, U+202F, U+205F, U+3000, U+FEFF).
\<close>

definition is_space :: "nat \<Rightarrow> bool" where
  "is_space c \<longleftrightarrow>
     c \<in> {9, 10, 11, 12, 13, 32, 160, 5760, 8232, 8233, 8239, 8287, 12288, 65279}
     \<or> (8192 \<le> c \<and> c \<le> 8202)"

definition trim :: "jstring \<Rightarrow> jstring" where
  "trim s = rev (dropWhile is_space (rev (dropWhile is_space s)))"

section \<open>Numbers\<close>

text \<open>
  A JavaScript number is an IEEE 754 binary64 value: a finite value, given by the rational
  it denotes, an infinity, or NaN. The two zeros are one value \<open>Fin 0\<close>: the program
  divides by 100 only, compares with \<^verbatim>\<open><\<close> and tests truthiness, and JSON writes both
  zeros as \<^verbatim>\<open>0\<close>, so it cannot tell them apart.
\<close>

datatype double = Fin rat | PInf | NInf | NaN

text \<open>The nearest integer, a tie going to the even one.\<close>

definition round_even :: "rat \<Rightarrow> int" where
  "round_even x =
     (let f = \<lfloor>x\<rfloor>; r = x - of_int f
      in if r < 1 / 2 then f else if 1 / 2 < r then f + 1 else if even f then f else f + 1)"

text \<open>For \<open>0 < x\<close>, the exponent \<open>e\<close> with \<open>2 powi e \<le> x < 2 powi (e + 1)\<close>.\<close>

definition ilog2 :: "rat \<Rightarrow> int" where
  "ilog2 x = (if 1 \<le> x then bitlen \<lfloor>x\<rfloor> - 1 else - bitlen (\<lceil>1 / x\<rceil> - 1))"

text \<open>
  Rounding of an exact result to binary64, to nearest with ties to even: 53 significant bits,
  the unit in the last place not below \<open>2 powi (- 1074)\<close>, and an infinity from \<open>2 ^ 1024\<close> on.
\<close>

definition rd :: "rat \<Rightarrow> double" where
  "rd x =
     (if x = 0 then Fin 0
      else
        (let u = 2 powi (max (ilog2 \<bar>x\<bar>) (- 1022) - 52);
             r = of_int (round_even (\<bar>x\<bar> / u)) * u
         in if 2 ^ 1024 \<le> r then (if 0 < x then PInf else NInf) else Fin (sgn x * r)))"

text \<open>\<^verbatim>\<open>a + b\<close> and \<^verbatim>\<open>a * b\<close> on numbers.\<close>

fun fadd :: "double \<Rightarrow> double \<Rightarrow> double" where
  "fadd (Fin a) (Fin b) = rd (a + b)"
| "fadd NaN b = NaN"
| "fadd a NaN = NaN"
| "fadd PInf NInf = NaN"
| "fadd NInf PInf = NaN"
| "fadd PInf b = PInf"
| "fadd NInf b = NInf"
| "fadd a PInf = PInf"
| "fadd a NInf = NInf"

fun fmul :: "double \<Rightarrow> double \<Rightarrow> double" where
  "fmul (Fin a) (Fin b) = rd (a * b)"
| "fmul NaN b = NaN"
| "fmul a NaN = NaN"
| "fmul (Fin a) PInf = (if a = 0 then NaN else if 0 < a then PInf else NInf)"
| "fmul (Fin a) NInf = (if a = 0 then NaN else if 0 < a then NInf else PInf)"
| "fmul PInf (Fin b) = (if b = 0 then NaN else if 0 < b then PInf else NInf)"
| "fmul NInf (Fin b) = (if b = 0 then NaN else if 0 < b then NInf else PInf)"
| "fmul PInf PInf = PInf"
| "fmul NInf NInf = PInf"
| "fmul PInf NInf = NInf"
| "fmul NInf PInf = NInf"

text \<open>\<^verbatim>\<open>a / 100\<close>\<close>

fun div100 :: "double \<Rightarrow> double" where
  "div100 (Fin a) = rd (a / 100)"
| "div100 PInf = PInf"
| "div100 NInf = NInf"
| "div100 NaN = NaN"

text \<open>
  \<^verbatim>\<open>Math.round\<close>: the nearest integer, a tie going towards \<open>+\<infinity>\<close>; the result is exact.
\<close>

fun math_round :: "double \<Rightarrow> double" where
  "math_round (Fin a) = Fin (of_int \<lfloor>a + 1 / 2\<rfloor>)"
| "math_round PInf = PInf"
| "math_round NInf = NInf"
| "math_round NaN = NaN"

text \<open>\<^verbatim>\<open>a < 0\<close>\<close>

fun lt0 :: "double \<Rightarrow> bool" where
  "lt0 (Fin a) = (a < 0)"
| "lt0 NInf = True"
| "lt0 PInf = False"
| "lt0 NaN = False"

section \<open>Values\<close>

text \<open>
  The values of the program are those of JSON, with numbers as above: request bodies, the
  parsed file and the objects in memory. A property that is absent (\<^verbatim>\<open>undefined\<close>) is
  \<open>None\<close>. An object is the list of its entries; every JSON object has each key once, and
  the program does not observe the order of the entries.
\<close>

datatype json =
    JNull
  | JBool bool
  | JNum double
  | JStr jstring
  | JArr "json list"
  | JObj "(jstring \<times> json) list"

text \<open>Truthiness, as tested by \<^verbatim>\<open>!x\<close>, \<^verbatim>\<open>!!x\<close>, \<^verbatim>\<open>x || y\<close> and \<^verbatim>\<open>if (x)\<close>.\<close>

fun truthy :: "json option \<Rightarrow> bool" where
  "truthy None = False"
| "truthy (Some JNull) = False"
| "truthy (Some (JBool b)) = b"
| "truthy (Some (JNum (Fin r))) = (r \<noteq> 0)"
| "truthy (Some (JNum NaN)) = False"
| "truthy (Some (JNum PInf)) = True"
| "truthy (Some (JNum NInf)) = True"
| "truthy (Some (JStr s)) = (s \<noteq> [])"
| "truthy (Some (JArr xs)) = True"
| "truthy (Some (JObj kvs)) = True"

text \<open>Decimal rendering of an array index, the key under which it is a property.\<close>

fun index_key :: "nat \<Rightarrow> jstring" where
  "index_key n = (if n < 10 then [48 + n] else index_key (n div 10) @ [48 + n mod 10])"

text \<open>
  \<^verbatim>\<open>Object.entries(v)\<close>, which are also the properties that \<^verbatim>\<open>{ ...v }\<close> copies: the own
  enumerable string-keyed properties of \<open>v\<close>.
\<close>

fun object_entries :: "json \<Rightarrow> (jstring \<times> json) list" where
  "object_entries (JObj kvs) = kvs"
| "object_entries (JArr xs) = zip (map index_key [0..<length xs]) xs"
| "object_entries (JStr s) = zip (map index_key [0..<length s]) (map (\<lambda>c. JStr [c]) s)"
| "object_entries JNull = []"
| "object_entries (JBool b) = []"
| "object_entries (JNum n) = []"

text \<open>
  Reading a property whose name no prototype defines and that is neither an index nor
  \<^verbatim>\<open>length\<close> (the program reads no other): an own property of an object, \<^verbatim>\<open>undefined\<close> on
  an array or a primitive, a TypeError on \<^verbatim>\<open>null\<close> and on \<^verbatim>\<open>undefined\<close>.
\<close>

datatype js_error = TypeError | SyntaxError | IOError

fun get_prop :: "json option \<Rightarrow> jstring \<Rightarrow> js_error + json option" where
  "get_prop None k = Inl TypeError"
| "get_prop (Some JNull) k = Inl TypeError"
| "get_prop (Some (JObj kvs)) k = Inr (map_of kvs k)"
| "get_prop (Some v) k = Inr None"

text \<open>
  What \<^verbatim>\<open>JSON.parse(JSON.stringify(v))\<close> gives: an infinity or NaN is written as
  \<^verbatim>\<open>null\<close>, every other value comes back as it was.
\<close>

fun persist_json :: "json \<Rightarrow> json" where
  "persist_json (JNum (Fin r)) = JNum (Fin r)"
| "persist_json (JNum PInf) = JNull"
| "persist_json (JNum NInf) = JNull"
| "persist_json (JNum NaN) = JNull"
| "persist_json (JArr xs) = JArr (map persist_json xs)"
| "persist_json (JObj kvs) = JObj (map (\<lambda>(k, v). (k, persist_json v)) kvs)"
| "persist_json JNull = JNull"
| "persist_json (JBool b) = JBool b"
| "persist_json (JStr s) = JStr s"

section \<open>Coercions\<close>

text \<open>
  \<^verbatim>\<open>+\<close> concatenates when an operand is, or converts to, a string. The two conversions
  between numbers and strings, \<^verbatim>\<open>Number::toString\<close> and \<^verbatim>\<open>StringToNumber\<close> of ECMAScript,
  are taken as given: they are parameters of every function that may convert.
\<close>

record builtins =
  number_to_string :: "double \<Rightarrow> jstring"
  string_to_number :: "jstring \<Rightarrow> double"

fun join_comma :: "jstring list \<Rightarrow> jstring" where
  "join_comma [] = []"
| "join_comma [s] = s"
| "join_comma (s # t # ss) = s @ [44] @ join_comma (t # ss)"

text \<open>
  \<^verbatim>\<open>ToString\<close>: an array joins the strings of its elements with commas, \<^verbatim>\<open>null\<close> elements
  giving the empty string; an object gives \<^verbatim>\<open>[object Object]\<close>.
\<close>

fun to_string :: "builtins \<Rightarrow> json \<Rightarrow> jstring" where
  "to_string bi JNull = utf16 ''null''"
| "to_string bi (JBool b) = (if b then utf16 ''true'' else utf16 ''false'')"
| "to_string bi (JNum n) = number_to_string bi n"
| "to_string bi (JStr s) = s"
| "to_string bi (JArr xs) = join_comma (map (\<lambda>v. if v = JNull then [] else to_string bi v) xs)"
| "to_string bi (JObj kvs) = utf16 ''[object Object]''"

text \<open>Whether \<^verbatim>\<open>ToPrimitive\<close> gives a string.\<close>

fun stringy :: "json \<Rightarrow> bool" where
  "stringy (JStr s) = True"
| "stringy (JArr xs) = True"
| "stringy (JObj kvs) = True"
| "stringy v = False"

text \<open>\<^verbatim>\<open>ToNumber\<close>\<close>

fun to_number :: "builtins \<Rightarrow> json \<Rightarrow> double" where
  "to_number bi JNull = Fin 0"
| "to_number bi (JBool b) = (if b then Fin 1 else Fin 0)"
| "to_number bi (JNum n) = n"
| "to_number bi v = string_to_number bi (to_string bi v)"

text \<open>\<^verbatim>\<open>a + b\<close> on values\<close>

definition js_add :: "builtins \<Rightarrow> json \<Rightarrow> json \<Rightarrow> json" where
  "js_add bi a b =
     (if stringy a \<or> stringy b then JStr (to_string bi a @ to_string bi b)
      else JNum (fadd (to_number bi a) (to_number bi b)))"

text \<open>\<^verbatim>\<open>x || 0\<close>\<close>

definition or_zero :: "json option \<Rightarrow> json" where
  "or_zero v = (case v of None \<Rightarrow> JNum (Fin 0) | Some x \<Rightarrow> if truthy v then x else JNum (Fin 0))"

section \<open>Data model\<close>

text \<open>
  An order as the POST handler builds it. \<open>o_price\<close> is a number when the order is built;
  on disk it is \<^verbatim>\<open>null\<close> when the number was not finite, and a file may lack it.
  \<open>o_date\<close> and \<open>o_createdAt\<close> stand for the ISO strings of the source: \<open>o_createdAt\<close> is the
  instant in milliseconds since the epoch (absent in orders written by older versions),
  \<open>o_date\<close> is the UTC day number, so that \<^verbatim>\<open>new Date(order.date)\<close> is \<open>o_date order * 86400000\<close>.
\<close>

record order =
  o_id :: jstring
  o_customer :: jstring
  o_size :: jstring
  o_packaging :: jstring
  o_embroidery :: bool
  o_price :: "json option"
  o_date :: int
  o_createdAt :: "int option"

text \<open>
  The document \<^verbatim>\<open>db.data\<close>. The pricing configuration \<^verbatim>\<open>db.data.config\<close> is any value:
  the file is not validated. The orders of a file are taken to be orders as above, and the
  settings to be an object.
\<close>

record document =
  orders :: "order list option"
  config :: "json option"
  settings :: "(jstring \<times> json) list option"

text \<open>\<^verbatim>\<open>defaultData.config\<close> and \<^verbatim>\<open>defaultData\<close>.\<close>

definition defaultPackaging :: json where
  "defaultPackaging =
     JObj [(utf16 ''basic'', JNum (Fin 3)), (utf16 ''branded'', JNum (Fin 5)),
           (utf16 ''box'', JNum (Fin 7))]"

definition defaultConfig :: json where
  "defaultConfig =
     JObj [(utf16 ''basePrice'', JNum (Fin 45)),
           (utf16 ''packaging'', defaultPackaging),
           (utf16 ''embroidery'', JNum (Fin 20))]"

definition defaultData :: document where
  "defaultData = \<lparr>orders = Some [], config = Some defaultConfig, settings = Some []\<rparr>"

text \<open>The document that is read back after \<^verbatim>\<open>JSON.stringify\<close> has written it.\<close>

definition persist_order :: "order \<Rightarrow> order" where
  "persist_order order = order\<lparr>o_price := map_option persist_json (o_price order)\<rparr>"

definition persist_doc :: "document \<Rightarrow> document" where
  "persist_doc doc =
     \<lparr>orders = map_option (map persist_order) (orders doc),
      config = map_option persist_json (config doc),
      settings = map_option (map (\<lambda>(k, v). (k, persist_json v))) (settings doc)\<rparr>"

section \<open>Pricing engine\<close>

text \<open>
  The packaging types. \<^verbatim>\<open>calculatePrice\<close> is called after validation only, with one of
  the three; for these keys \<^verbatim>\<open>config.packaging[packaging]\<close> finds own properties only.
\<close>

datatype packaging_type = Basic | Branded | Box

fun packaging_name :: "packaging_type \<Rightarrow> jstring" where
  "packaging_name Basic = utf16 ''basic''"
| "packaging_name Branded = utf16 ''branded''"
| "packaging_name Box = utf16 ''box''"

text \<open>
  \<^verbatim>\<open>calculatePrice(config, size, packaging, embroidery)\<close>; the size is \<open>sz\<close>. The result of
  \<^verbatim>\<open>Math.round(price * 100) / 100\<close> is a number whatever \<open>price\<close> is.
\<close>

definition calculatePrice ::
  "builtins \<Rightarrow> json option \<Rightarrow> jstring \<Rightarrow> packaging_type \<Rightarrow> json option \<Rightarrow> js_error + double" where
  "calculatePrice bi cfg sz pkg emb =
     (case get_prop cfg (utf16 ''basePrice'') of
        Inl e \<Rightarrow> Inl e
      | Inr bp \<Rightarrow>
          (let price = or_zero bp
           in case get_prop cfg (utf16 ''packaging'') of
                Inl e \<Rightarrow> Inl e
              | Inr pk \<Rightarrow>
                  (case get_prop pk (packaging_name pkg) of
                     Inl e \<Rightarrow> Inl e
                   | Inr s \<Rightarrow>
                       (let price = js_add bi price (or_zero s)
                        in case (if truthy emb
                                 then (case get_prop cfg (utf16 ''embroidery'') of
                                         Inl e \<Rightarrow> Inl e
                                       | Inr em \<Rightarrow> Inr (js_add bi price (or_zero em)))
                                 else Inr price) of
                             Inl e \<Rightarrow> Inl e
                           | Inr price \<Rightarrow>
                               Inr (div100 (math_round (fmul (to_number bi price) (Fin 100))))))))"

section \<open>Validation\<close>

definition sizes :: "jstring list" where
  "sizes = [utf16 ''M'', utf16 ''L'', utf16 ''XL'', utf16 ''2XL'']"

definition validPackageTypes :: "jstring list" where
  "validPackageTypes = [utf16 ''basic'', utf16 ''branded'', utf16 ''box'']"

text \<open>\<^verbatim>\<open>list.includes(v)\<close> for a list of strings: only an equal string is included.\<close>

fun js_includes :: "jstring list \<Rightarrow> json option \<Rightarrow> bool" where
  "js_includes xs (Some (JStr s)) = (s \<in> set xs)"
| "js_includes xs v = False"

text \<open>\<^verbatim>\<open>typeof customer !== 'string' || customer.trim().length === 0\<close>\<close>

fun not_string_or_blank :: "json option \<Rightarrow> bool" where
  "not_string_or_blank (Some (JStr s)) = (length (trim s) = 0)"
| "not_string_or_blank v = True"

definition validateOrderData :: "(jstring \<times> json) list \<Rightarrow> jstring option" where
  "validateOrderData body =
     (let customer = map_of body (utf16 ''customer'');
          sz = map_of body (utf16 ''size'');
          pkg = map_of body (utf16 ''packaging'')
      in if \<not> truthy customer \<or> not_string_or_blank customer
         then Some (utf16 ''Customer name is required'')
         else if \<not> truthy sz \<or> \<not> js_includes sizes sz
         then Some (utf16 ''Valid size is required (M, L, XL, 2XL)'')
         else if \<not> truthy pkg \<or> \<not> js_includes validPackageTypes pkg
         then Some (utf16 ''Valid packaging type is required (basic, branded, box)'')
         else None)"

text \<open>\<^verbatim>\<open>typeof price !== 'number' || price < 0\<close>\<close>

fun bad_price :: "json \<Rightarrow> bool" where
  "bad_price (JNum n) = lt0 n"
| "bad_price v = True"

text \<open>The loop over \<^verbatim>\<open>Object.entries(packaging)\<close>, returning at the first bad entry.\<close>

fun check_packaging :: "(jstring \<times> json) list \<Rightarrow> jstring option" where
  "check_packaging [] = None"
| "check_packaging ((ty, price) # rest) =
     (if ty \<notin> set validPackageTypes \<or> bad_price price
      then Some (utf16 ''Invalid packaging configuration'')
      else check_packaging rest)"

definition validateConfigData :: "(jstring \<times> json) list \<Rightarrow> jstring option" where
  "validateConfigData body =
     (let bp = map_of body (utf16 ''basePrice'');
          pk = map_of body (utf16 ''packaging'');
          em = map_of body (utf16 ''embroidery'')
      in if (case bp of None \<Rightarrow> False | Some v \<Rightarrow> bad_price v)
         then Some (utf16 ''Base price must be a positive number'')
         else case (case pk of
                      None \<Rightarrow> None
                    | Some p \<Rightarrow> if truthy pk then check_packaging (object_entries p) else None) of
                Some msg \<Rightarrow> Some msg
              | None \<Rightarrow>
                  if (case em of None \<Rightarrow> False | Some v \<Rightarrow> bad_price v)
                  then Some (utf16 ''Embroidery price must be a positive number'')
                  else None)"

section \<open>Store\<close>

text \<open>
  What \<^verbatim>\<open>JSON.parse\<close> yields for a text. Of a value that is not an object only its kind
  matters; a primitive carries its truthiness.
\<close>

datatype parsed = PNull | PPrimitive bool | PArray | PObject document

text \<open>
  The file \<^verbatim>\<open>db.json\<close>: missing; present but not readable (\<^verbatim>\<open>readFileSync\<close> throws; the
  flag says whether \<^verbatim>\<open>writeFileSync\<close> succeeds on it); or a text. \<^verbatim>\<open>initializeDbFile\<close>
  parses the text after \<^verbatim>\<open>trim()\<close>, lowdb parses it as it is, and \<^verbatim>\<open>trim()\<close> strips
  characters that \<^verbatim>\<open>JSON.parse\<close> rejects (U+FEFF, VT, FF, NBSP and others). So a text is
  \<^item> \<open>Blank\<close>: empty after trimming, and not parseable;
  \<^item> \<open>Corrupt\<close>: not parseable, trimmed or not;
  \<^item> \<open>Padded v\<close>: parseable to \<open>v\<close> only after trimming;
  \<^item> \<open>Clean v\<close>: parseable to \<open>v\<close> as it is.

  A file that can be read, or that is missing, can be written.
\<close>

datatype dbfile =
    Missing
  | Unreadable bool
  | Blank
  | Corrupt
  | Padded parsed
  | Clean parsed

text \<open>
  The lowdb handle: \<open>data\<close> holds the properties of \<^verbatim>\<open>db.data\<close>, \<open>shape\<close> says what kind
  of value \<^verbatim>\<open>db.data\<close> is. An array read from the file or a primitive has none of the
  three properties.
\<close>

datatype shape = IsObject | IsArray | IsPrimitive

record db =
  shape :: shape
  data :: document
  disk :: dbfile

definition no_props :: document where
  "no_props = \<lparr>orders = None, config = None, settings = None\<rparr>"

text \<open>\<^verbatim>\<open>fs.writeFileSync(dbPath, JSON.stringify(doc, null, 2), 'utf-8')\<close>\<close>

definition writeFileSync :: "dbfile \<Rightarrow> document \<Rightarrow> js_error + dbfile" where
  "writeFileSync f doc =
     (case f of
        Unreadable writable \<Rightarrow> if writable then Inr (Unreadable writable) else Inl IOError
      | _ \<Rightarrow> Inr (Clean (PObject (persist_doc doc))))"

text \<open>
  \<^verbatim>\<open>typeof data !== 'object' || Array.isArray(data) || data === null\<close>
\<close>

fun not_an_object :: "parsed \<Rightarrow> bool" where
  "not_an_object (PPrimitive t) = True"
| "not_an_object PArray = True"
| "not_an_object PNull = True"
| "not_an_object (PObject doc) = False"

text \<open>
  \<^verbatim>\<open>initializeDbFile\<close>: the \<^verbatim>\<open>catch\<close> block takes the read error and the parse error; an
  error of \<^verbatim>\<open>writeFileSync\<close> is not caught.
\<close>

definition initializeDbFile :: "dbfile \<Rightarrow> js_error + dbfile" where
  "initializeDbFile f =
     (let needsInit =
            (case f of
               Missing \<Rightarrow> True
             | Unreadable writable \<Rightarrow> True
             | Blank \<Rightarrow> True
             | Corrupt \<Rightarrow> True
             | Padded v \<Rightarrow> not_an_object v
             | Clean v \<Rightarrow> not_an_object v)
      in if needsInit then writeFileSync f defaultData else Inr f)"

text \<open>
  \<^verbatim>\<open>db.read()\<close>: the adapter returns \<^verbatim>\<open>null\<close> for a missing file and throws on a read
  or parse error; lowdb assigns \<^verbatim>\<open>db.data\<close> only when the value read is truthy.
\<close>

definition db_read :: "db \<Rightarrow> js_error + db" where
  "db_read d =
     (case disk d of
        Missing \<Rightarrow> Inr d
      | Unreadable writable \<Rightarrow> Inl IOError
      | Blank \<Rightarrow> Inl SyntaxError
      | Corrupt \<Rightarrow> Inl SyntaxError
      | Padded v \<Rightarrow> Inl SyntaxError
      | Clean PNull \<Rightarrow> Inr d
      | Clean (PPrimitive t) \<Rightarrow> Inr (if t then d\<lparr>shape := IsPrimitive, data := no_props\<rparr> else d)
      | Clean PArray \<Rightarrow> Inr (d\<lparr>shape := IsArray, data := no_props\<rparr>)
      | Clean (PObject doc) \<Rightarrow> Inr (d\<lparr>shape := IsObject, data := doc\<rparr>))"

text \<open>
  \<^verbatim>\<open>db.write()\<close>: lowdb writes \<^verbatim>\<open>JSON.stringify(db.data)\<close> to a temporary file and renames
  it to \<^verbatim>\<open>db.json\<close>. It is called after a \<^verbatim>\<open>db.read()\<close> that did not throw.
\<close>

definition db_write :: "db \<Rightarrow> db" where
  "db_write d =
     d\<lparr>disk := Clean (case shape d of
                         IsObject \<Rightarrow> PObject (persist_doc (data d))
                       | IsArray \<Rightarrow> PArray
                       | IsPrimitive \<Rightarrow> PPrimitive True)\<rparr>"

text \<open>\<^verbatim>\<open>obj[k] = v\<close> and \<^verbatim>\<open>{ ...a, ...b }\<close> on objects as lists of entries.\<close>

fun assign :: "'k \<Rightarrow> 'v \<Rightarrow> ('k \<times> 'v) list \<Rightarrow> ('k \<times> 'v) list" where
  "assign k v [] = [(k, v)]"
| "assign k v ((k', v') # kvs) = (if k = k' then (k, v) # kvs else (k', v') # assign k v kvs)"

fun spread :: "('k \<times> 'v) list \<Rightarrow> ('k \<times> 'v) list \<Rightarrow> ('k \<times> 'v) list" where
  "spread a [] = a"
| "spread a ((k, v) # b) = spread (assign k v a) b"

text \<open>The properties that \<^verbatim>\<open>{ ...v }\<close> copies from a value that may be \<^verbatim>\<open>undefined\<close>.\<close>

definition spread_entries :: "json option \<Rightarrow> (jstring \<times> json) list" where
  "spread_entries v = (case v of None \<Rightarrow> [] | Some x \<Rightarrow> object_entries x)"

text \<open>
  The assignment \<^verbatim>\<open>base.k = v\<close> for such a property name, giving the new \<open>base\<close>: on an
  array it adds a property that \<^verbatim>\<open>JSON.stringify\<close> does not write, neither to the file nor
  to the response, and that the handler does not read again; on a primitive, on \<^verbatim>\<open>null\<close>
  and on \<^verbatim>\<open>undefined\<close> it throws (a module is in strict mode).
\<close>

fun set_prop :: "json option \<Rightarrow> jstring \<Rightarrow> json \<Rightarrow> js_error + json option" where
  "set_prop (Some (JObj kvs)) k v = Inr (Some (JObj (assign k v kvs)))"
| "set_prop (Some (JArr xs)) k v = Inr (Some (JArr xs))"
| "set_prop base k v = Inl TypeError"

text \<open>
  \<^verbatim>\<open>initDB\<close>. \<^verbatim>\<open>db.data\<close> starts as \<^verbatim>\<open>defaultData\<close> and is truthy after the read, so
  \<^verbatim>\<open>db.data = db.data || {}\<close> changes nothing. Assigning a property of a primitive throws.
\<close>

definition initDB :: "dbfile \<Rightarrow> js_error + db" where
  "initDB f =
     (case initializeDbFile f of
        Inl e \<Rightarrow> Inl e
      | Inr f \<Rightarrow>
          (let d = \<lparr>shape = IsObject, data = defaultData, disk = f\<rparr>
           in case db_read d of
                Inl e \<Rightarrow> Inl e
              | Inr d \<Rightarrow>
                  if shape d = IsPrimitive then Inl TypeError
                  else
                    (let doc = data d;
                         doc = doc\<lparr>orders := Some (case orders doc of Some os \<Rightarrow> os | None \<Rightarrow> [])\<rparr>;
                         doc = doc\<lparr>config :=
                                 Some (JObj (spread (object_entries defaultConfig)
                                   (spread_entries (if truthy (config doc) then config doc
                                                    else Some (JObj [])))))\<rparr>;
                         doc = doc\<lparr>settings := Some (case settings doc of Some s \<Rightarrow> s | None \<Rightarrow> [])\<rparr>
                     in case get_prop (config doc) (utf16 ''packaging'') of
                          Inl e \<Rightarrow> Inl e
                        | Inr pk \<Rightarrow>
                            (case (if \<not> truthy pk
                                   then set_prop (config doc) (utf16 ''packaging'') defaultPackaging
                                   else Inr (config doc)) of
                               Inl e \<Rightarrow> Inl e
                             | Inr cfg \<Rightarrow> Inr (db_write (d\<lparr>data := doc\<lparr>config := cfg\<rparr>\<rparr>))))))"

section \<open>Request handlers\<close>

text \<open>
  A handler takes the lowdb handle and returns it with the response. The failures are
  those of the specification: \<open>InvalidOrder\<close> and \<open>InvalidConfig\<close> are the status 400 with
  the validation message, \<open>IdRequired\<close> the status 400 of a missing order id, \<open>NotFound\<close>
  the status 404, \<open>StorageError\<close> the status 500 of the \<^verbatim>\<open>catch\<close> block. A successful
  response is the value handed to \<^verbatim>\<open>res.json\<close>. The body of a request is the object that
  \<^verbatim>\<open>express.json()\<close> has parsed, given by its entries.
\<close>

datatype error = InvalidOrder jstring | InvalidConfig jstring | IdRequired | NotFound | StorageError

text \<open>
  The string held by a property that validation has found to be a string, and the
  packaging type that validation has found it to name.
\<close>

fun string_of :: "json option \<Rightarrow> jstring option" where
  "string_of (Some (JStr s)) = Some s"
| "string_of v = None"

definition packaging_type_of :: "jstring \<Rightarrow> packaging_type option" where
  "packaging_type_of s =
     (if s = utf16 ''basic'' then Some Basic
      else if s = utf16 ''branded'' then Some Branded
      else if s = utf16 ''box'' then Some Box
      else None)"

text \<open>
  \<^verbatim>\<open>POST /api/orders\<close>. The generated id and the two readings of the clock
  (milliseconds since the epoch) are inputs. The last branches are never taken: validation
  lets only strings and packaging types through.
\<close>

definition post_orders ::
  "builtins \<Rightarrow> db \<Rightarrow> (jstring \<times> json) list \<Rightarrow> jstring \<Rightarrow> int \<Rightarrow> int \<Rightarrow> db \<times> (error + order)" where
  "post_orders bi d body uuid t1 t2 =
     (case validateOrderData body of
        Some msg \<Rightarrow> (d, Inl (InvalidOrder msg))
      | None \<Rightarrow>
          (case (string_of (map_of body (utf16 ''customer'')),
                 string_of (map_of body (utf16 ''size'')),
                 string_of (map_of body (utf16 ''packaging''))) of
             (Some customer, Some sz, Some pkg) \<Rightarrow>
               (case packaging_type_of pkg of
                  None \<Rightarrow> (d, Inl StorageError)
                | Some pkg_type \<Rightarrow>
                    (let emb = map_of body (utf16 ''embroidery'')
                     in case db_read d of
                          Inl e \<Rightarrow> (d, Inl StorageError)
                        | Inr d \<Rightarrow>
                            (case calculatePrice bi (config (data d)) sz pkg_type emb of
                               Inl e \<Rightarrow> (d, Inl StorageError)
                             | Inr price \<Rightarrow>
                                 (let newOrder =
                                        \<lparr>o_id = uuid,
                                         o_customer = trim customer,
                                         o_size = sz,
                                         o_packaging = pkg,
                                         o_embroidery = truthy emb,
                                         o_price = Some (JNum price),
                                         o_date = t1 div 86400000,
                                         o_createdAt = Some t2\<rparr>
                                  in case orders (data d) of
                                       None \<Rightarrow> (d, Inl StorageError)
                                     | Some os \<Rightarrow>
                                         (db_write (d\<lparr>data := (data d)\<lparr>orders := Some (os @ [newOrder])\<rparr>\<rparr>),
                                          Inr newOrder)))))
           | _ \<Rightarrow> (d, Inl StorageError)))"

text \<open>\<^verbatim>\<open>GET /api/config\<close>\<close>

record config_view =
  v_basePrice :: "json option"
  v_packaging :: "json option"
  v_embroidery :: "json option"

definition get_config :: "db \<Rightarrow> db \<times> (error + config_view)" where
  "get_config d =
     (case db_read d of
        Inl e \<Rightarrow> (d, Inl StorageError)
      | Inr d \<Rightarrow>
          (case (get_prop (config (data d)) (utf16 ''basePrice''),
                 get_prop (config (data d)) (utf16 ''packaging''),
                 get_prop (config (data d)) (utf16 ''embroidery'')) of
             (Inr bp, Inr pk, Inr em) \<Rightarrow>
               (d, Inr \<lparr>v_basePrice = bp, v_packaging = pk, v_embroidery = em\<rparr>)
           | _ \<Rightarrow> (d, Inl StorageError)))"

text \<open>
  \<^verbatim>\<open>POST /api/config/update\<close>. When an assignment throws, no earlier one has changed
  \<^verbatim>\<open>db.data.config\<close>: the first assignment throws or none does.
\<close>

definition post_config_update ::
  "db \<Rightarrow> (jstring \<times> json) list \<Rightarrow> db \<times> (error + json option)" where
  "post_config_update d body =
     (case validateConfigData body of
        Some msg \<Rightarrow> (d, Inl (InvalidConfig msg))
      | None \<Rightarrow>
          (let bp = map_of body (utf16 ''basePrice'');
               pk = map_of body (utf16 ''packaging'');
               em = map_of body (utf16 ''embroidery'')
           in case db_read d of
                Inl e \<Rightarrow> (d, Inl StorageError)
              | Inr d \<Rightarrow>
                  (case (case bp of
                           None \<Rightarrow> Inr (config (data d))
                         | Some v \<Rightarrow> set_prop (config (data d)) (utf16 ''basePrice'') v) of
                     Inl e \<Rightarrow> (d, Inl StorageError)
                   | Inr cfg \<Rightarrow>
                       (case (if truthy pk
                              then (case get_prop cfg (utf16 ''packaging'') of
                                      Inl e \<Rightarrow> Inl e
                                    | Inr old \<Rightarrow>
                                        set_prop cfg (utf16 ''packaging'')
                                          (JObj (spread (spread_entries old) (spread_entries pk))))
                              else Inr cfg) of
                          Inl e \<Rightarrow> (d, Inl StorageError)
                        | Inr cfg \<Rightarrow>
                            (case (case em of
                                     None \<Rightarrow> Inr cfg
                                   | Some v \<Rightarrow> set_prop cfg (utf16 ''embroidery'') v) of
                               Inl e \<Rightarrow> (d, Inl StorageError)
                             | Inr cfg \<Rightarrow>
                                 (db_write (d\<lparr>data := (data d)\<lparr>config := cfg\<rparr>\<rparr>), Inr cfg))))))"

text \<open>\<^verbatim>\<open>Array.prototype.findIndex\<close>; \<open>None\<close> is the result \<^verbatim>\<open>-1\<close>.\<close>

fun findIndex :: "('a \<Rightarrow> bool) \<Rightarrow> 'a list \<Rightarrow> nat option" where
  "findIndex P [] = None"
| "findIndex P (x # xs) = (if P x then Some 0 else map_option Suc (findIndex P xs))"

text \<open>\<^verbatim>\<open>DELETE /api/orders/:id\<close>\<close>

definition delete_order :: "db \<Rightarrow> jstring \<Rightarrow> db \<times> (error + order)" where
  "delete_order d ident =
     (if ident = [] then (d, Inl IdRequired)
      else case db_read d of
             Inl e \<Rightarrow> (d, Inl StorageError)
           | Inr d \<Rightarrow>
               (case orders (data d) of
                  None \<Rightarrow> (d, Inl StorageError)
                | Some os \<Rightarrow>
                    (case findIndex (\<lambda>order. o_id order = ident) os of
                       None \<Rightarrow> (d, Inl NotFound)
                     | Some orderIndex \<Rightarrow>
                         (let deletedOrder = os ! orderIndex;
                              os = take orderIndex os @ drop (Suc orderIndex) os
                          in (db_write (d\<lparr>data := (data d)\<lparr>orders := Some os\<rparr>\<rparr>),
                              Inr deletedOrder)))))"

section \<open>Statistics\<close>

record stats =
  totalOrders :: nat
  totalRevenue :: json
  sizeBreakdown :: "(jstring \<times> nat) list"
  packagingBreakdown :: "(jstring \<times> nat) list"
  embroideryCount :: nat
  recentOrders :: "order list"

text \<open>\<^verbatim>\<open>new Date(order.createdAt || order.date)\<close> as milliseconds since the epoch.\<close>

definition time_of :: "order \<Rightarrow> int" where
  "time_of order = (case o_createdAt order of Some t \<Rightarrow> t | None \<Rightarrow> o_date order * 86400000)"

text \<open>The comparator \<^verbatim>\<open>(a, b) => new Date(...b) - new Date(...a)\<close>.\<close>

definition by_recency :: "order \<Rightarrow> order \<Rightarrow> int" where
  "by_recency a b = time_of b - time_of a"

text \<open>
  \<^verbatim>\<open>Array.prototype.sort(cmp)\<close> is a stable sort: elements that compare equal keep
  their order. For a comparator that is a consistent order there is one such result;
  it is computed here by insertion, an element going before the first one it does not
  follow.
\<close>

fun insert_by :: "('a \<Rightarrow> 'a \<Rightarrow> int) \<Rightarrow> 'a \<Rightarrow> 'a list \<Rightarrow> 'a list" where
  "insert_by cmp x [] = [x]"
| "insert_by cmp x (y # ys) = (if cmp x y \<le> 0 then x # y # ys else y # insert_by cmp x ys)"

fun js_sort :: "('a \<Rightarrow> 'a \<Rightarrow> int) \<Rightarrow> 'a list \<Rightarrow> 'a list" where
  "js_sort cmp [] = []"
| "js_sort cmp (x # xs) = insert_by cmp x (js_sort cmp xs)"

text \<open>
  \<^verbatim>\<open>GET /api/stats\<close>. The sort is in place: it reorders \<^verbatim>\<open>db.data.orders\<close> in memory
  (nothing is written), unless the property was absent and a fresh empty array was used.
\<close>

definition get_stats :: "builtins \<Rightarrow> db \<Rightarrow> db \<times> (error + stats)" where
  "get_stats bi d =
     (case db_read d of
        Inl e \<Rightarrow> (d, Inl StorageError)
      | Inr d \<Rightarrow>
          (let os = (case orders (data d) of Some os \<Rightarrow> os | None \<Rightarrow> []);
               sorted_os = js_sort by_recency os;
               st = \<lparr>totalOrders = length os,
                     totalRevenue =
                       fold (\<lambda>order sum. js_add bi sum (or_zero (o_price order))) os (JNum (Fin 0)),
                     sizeBreakdown =
                       [(utf16 ''M'', length (filter (\<lambda>order. o_size order = utf16 ''M'') os)),
                        (utf16 ''L'', length (filter (\<lambda>order. o_size order = utf16 ''L'') os)),
                        (utf16 ''XL'', length (filter (\<lambda>order. o_size order = utf16 ''XL'') os)),
                        (utf16 ''2XL'', length (filter (\<lambda>order. o_size order = utf16 ''2XL'') os))],
                     packagingBreakdown =
                       [(utf16 ''basic'', length (filter (\<lambda>order. o_packaging order = utf16 ''basic'') os)),
                        (utf16 ''branded'', length (filter (\<lambda>order. o_packaging order = utf16 ''branded'') os)),
                        (utf16 ''box'', length (filter (\<lambda>order. o_packaging order = utf16 ''box'') os))],
                     embroideryCount = length (filter o_embroidery os),
                     recentOrders = take 5 sorted_os\<rparr>
           in (d\<lparr>data := (data d)\<lparr>orders := map_option (\<lambda>os. sorted_os) (orders (data d))\<rparr>\<rparr>,
               Inr st)))"

section \<open>Notions of the specification\<close>

text \<open>
  A valid order, in the words of the specification: the customer name is a string that is
  not blank after trimming, that is, not made of white space only (the white space and line
  terminators of ECMAScript: U+0009 to U+000D, U+0020, U+00A0, U+1680, U+2000 to U+200A,
  U+2028, U+2029, U+202F, U+205F, U+3000, U+FEFF); the size is one of the four sizes and the
  packaging one of the three packaging types.
\<close>

definition white_space :: "nat set" where
  "white_space =
     {9, 10, 11, 12, 13, 32, 160, 5760} \<union> {8192..8202} \<union> {8232, 8233, 8239, 8287, 12288, 65279}"

definition blank :: "jstring \<Rightarrow> bool" where
  "blank s \<longleftrightarrow> set s \<subseteq> white_space"

definition name_given :: "(jstring \<times> json) list \<Rightarrow> bool" where
  "name_given body \<longleftrightarrow> (\<exists>s. map_of body (utf16 ''customer'') = Some (JStr s) \<and> \<not> blank s)"

definition size_valid :: "(jstring \<times> json) list \<Rightarrow> bool" where
  "size_valid body \<longleftrightarrow>
     map_of body (utf16 ''size'')
       \<in> {Some (JStr (utf16 ''M'')), Some (JStr (utf16 ''L'')), Some (JStr (utf16 ''XL'')),
          Some (JStr (utf16 ''2XL''))}"

definition packaging_valid :: "(jstring \<times> json) list \<Rightarrow> bool" where
  "packaging_valid body \<longleftrightarrow>
     map_of body (utf16 ''packaging'')
       \<in> {Some (JStr (utf16 ''basic'')), Some (JStr (utf16 ''branded'')),
          Some (JStr (utf16 ''box''))}"

text \<open>
  The boolean coercion \<^verbatim>\<open>!!v\<close>, by the table of ECMAScript: \<^verbatim>\<open>undefined\<close>, \<^verbatim>\<open>null\<close>,
  \<^verbatim>\<open>false\<close>, zero, NaN and the empty string give false, everything else true.
\<close>

definition to_boolean :: "json option \<Rightarrow> bool" where
  "to_boolean v \<longleftrightarrow>
     v \<notin> {None, Some JNull, Some (JBool False), Some (JNum (Fin 0)), Some (JNum NaN), Some (JStr [])}"

text \<open>
  The conditions under which the specification has a config update fail: a value that is
  present and not numeric or negative, or a packaging entry with a key outside the three
  packaging keys or with such a value.
\<close>

fun is_number :: "json \<Rightarrow> bool" where
  "is_number (JNum n) = True"
| "is_number v = False"

fun is_negative :: "json \<Rightarrow> bool" where
  "is_negative (JNum (Fin r)) = (r < 0)"
| "is_negative (JNum NInf) = True"
| "is_negative v = False"

definition packaging_entries :: "(jstring \<times> json) list \<Rightarrow> (jstring \<times> json) list" where
  "packaging_entries body =
     (case map_of body (utf16 ''packaging'') of None \<Rightarrow> [] | Some p \<Rightarrow> object_entries p)"

definition invalid_config :: "(jstring \<times> json) list \<Rightarrow> bool" where
  "invalid_config body \<longleftrightarrow>
     (case map_of body (utf16 ''basePrice'') of
        None \<Rightarrow> False
      | Some v \<Rightarrow> \<not> is_number v \<or> is_negative v)
     \<or> (case map_of body (utf16 ''embroidery'') of
           None \<Rightarrow> False
         | Some v \<Rightarrow> \<not> is_number v \<or> is_negative v)
     \<or> list_ex (\<lambda>(k, v). k \<notin> {utf16 ''basic'', utf16 ''branded'', utf16 ''box''}
                          \<or> is_negative v \<or> \<not> is_number v)
           (packaging_entries body)"

text \<open>
  The surcharge a config object has for a packaging key (the entries of its packaging
  value), and the value a partial update mentions for it.
\<close>

definition surcharges :: "(jstring \<times> json) list \<Rightarrow> jstring \<Rightarrow> json option" where
  "surcharges cfg = map_of (spread_entries (map_of cfg (utf16 ''packaging'')))"

definition partial_packaging :: "(jstring \<times> json) list \<Rightarrow> jstring \<Rightarrow> json option" where
  "partial_packaging body = map_of (packaging_entries body)"

text \<open>
  A packaging value is fully populated when it is an object with the three packaging keys.
\<close>

definition has_all_keys :: "json option \<Rightarrow> bool" where
  "has_all_keys v \<longleftrightarrow>
     (case v of
        Some (JObj pm) \<Rightarrow>
          list_all (\<lambda>k. map_of pm k \<noteq> None) [utf16 ''basic'', utf16 ''branded'', utf16 ''box'']
      | _ \<Rightarrow> False)"

text \<open>
  The config that initialization takes from a file: the properties of the config of the
  document when the file is kept and that config is truthy, none otherwise. Its packaging
  value is the persisted packaging.
\<close>

definition persisted_config :: "dbfile \<Rightarrow> (jstring \<times> json) list" where
  "persisted_config f =
     (case f of
        Clean (PObject doc) \<Rightarrow> if truthy (config doc) then spread_entries (config doc) else []
      | _ \<Rightarrow> [])"

definition persisted_packaging :: "dbfile \<Rightarrow> json option" where
  "persisted_packaging f = map_of (persisted_config f) (utf16 ''packaging'')"

text \<open>The packaging value that a reader gets from \<^verbatim>\<open>GET /api/config\<close>.\<close>

definition visible_packaging :: "db \<Rightarrow> json option" where
  "visible_packaging d = (case snd (get_config d) of Inr view \<Rightarrow> v_packaging view | Inl e \<Rightarrow> None)"

text \<open>
  The files that the specification has replaced by the default document, the unreadable
  one apart: missing, blank, not parseable, or parseable (as it is or after trimming) to
  \<^verbatim>\<open>null\<close>, an array or a primitive.
\<close>

definition unusable :: "dbfile \<Rightarrow> bool" where
  "unusable f \<longleftrightarrow>
     f \<in> {Missing, Blank, Corrupt,
          Padded PNull, Padded PArray, Padded (PPrimitive True), Padded (PPrimitive False),
          Clean PNull, Clean PArray, Clean (PPrimitive True), Clean (PPrimitive False)}"

text \<open>The packaging value of the config of a document.\<close>

definition packaging_of :: "document \<Rightarrow> json option" where
  "packaging_of doc =
     (case config doc of Some (JObj kvs) \<Rightarrow> map_of kvs (utf16 ''packaging'') | _ \<Rightarrow> None)"



text \<open>
  The prices of the orders added from left to right, starting from 0, each sum rounded to
  a double; an absent price, \<^verbatim>\<open>null\<close> and zero count as 0.
\<close>

definition price_value :: "order \<Rightarrow> double" where
  "price_value order =
     (case o_price order of
        Some (JNum (Fin r)) \<Rightarrow> Fin r
      | Some (JNum PInf) \<Rightarrow> PInf
      | Some (JNum NInf) \<Rightarrow> NInf
      | _ \<Rightarrow> Fin 0)"

definition sum_left :: "double list \<Rightarrow> double" where
  "sum_left ns = foldl fadd (Fin 0) ns"

text \<open>An order whose price is a number, \<^verbatim>\<open>null\<close> or absent.\<close>

definition price_ok :: "order \<Rightarrow> bool" where
  "price_ok order =
     (case o_price order of None \<Rightarrow> True | Some JNull \<Rightarrow> True | Some (JNum n) \<Rightarrow> True | _ \<Rightarrow> False)"

text \<open>
  The recent orders of the specification: the five latest, in descending order of
  creation time, orders of equal time in the reverse of their insertion order.
\<close>

definition recent_spec :: "order list \<Rightarrow> order list" where
  "recent_spec os = take 5 (rev (sort_key time_of os))"

section \<open>Examples\<close>

text \<open>
  For the examples: an order of size M with basic packaging, and an instance of the two
  conversions. No example converts between numbers and strings.
\<close>

definition sample_order :: "string \<Rightarrow> rat \<Rightarrow> int \<Rightarrow> order" where
  "sample_order ident price created =
     \<lparr>o_id = utf16 ident, o_customer = utf16 ''Ann'', o_size = utf16 ''M'',
      o_packaging = utf16 ''basic'', o_embroidery = False, o_price = Some (JNum (Fin price)),
      o_date = created div 86400000, o_createdAt = Some created\<rparr>"

definition sample_builtins :: builtins where
  "sample_builtins = \<lparr>number_to_string = (\<lambda>n. []), string_to_number = (\<lambda>s. NaN)\<rparr>"

text \<open>
  A document whose config has a packaging with one key only, the handle that serves a store
  holding the default document, and a request body for an order of size M with basic
  packaging, with or without an embroidery field.
\<close>

definition partial_config :: json where
  "partial_config =
     JObj [(utf16 ''basePrice'', JNum (Fin 45)),
           (utf16 ''packaging'', JObj [(utf16 ''basic'', JNum (Fin 3))]),
           (utf16 ''embroidery'', JNum (Fin 20))]"

definition partial_doc :: document where
  "partial_doc = \<lparr>orders = Some [], config = Some partial_config, settings = Some []\<rparr>"

definition default_db :: db where
  "default_db = \<lparr>shape = IsObject, data = defaultData, disk = Clean (PObject defaultData)\<rparr>"

definition sample_body :: "json option \<Rightarrow> (jstring \<times> json) list" where
  "sample_body emb =
     [(utf16 ''customer'', JStr (utf16 '' Ann '')), (utf16 ''size'', JStr (utf16 ''M'')),
      (utf16 ''packaging'', JStr (utf16 ''basic''))]
     @ (case emb of None \<Rightarrow> [] | Some v \<Rightarrow> [(utf16 ''embroidery'', v)])"

section \<open>Error of rounding\<close>


section \<open>Properties of the rounding to doubles\<close>


lemma round_even_of_int: "round_even (of_int n) = n"
  by (simp add: round_even_def)

lemma ilog2_ge1:
  assumes "1 \<le> x"
  shows "2 powi (ilog2 x) \<le> x \<and> x < 2 powi (ilog2 x + 1)"
proof -
  let ?n = "\<lfloor>x\<rfloor>"
  from assms have n: "0 < ?n" by simp
  from bitlen_bounds [OF n]
  have lo: "2 ^ nat (bitlen ?n - 1) \<le> ?n" and hi: "?n < 2 ^ nat (bitlen ?n)"
    by simp_all
  from n have b: "1 \<le> bitlen ?n"
    by (simp add: bitlen_alt_def)
  have "(2::rat) powi (bitlen ?n - 1) = of_int (2 ^ nat (bitlen ?n - 1))"
    using b by (simp add: power_int_def)
  also have "\<dots> \<le> of_int ?n"
    using lo by (simp only: of_int_le_iff)
  also have "\<dots> \<le> x"
    by simp
  finally have 1: "2 powi (bitlen ?n - 1) \<le> x" .
  have "?n + 1 \<le> 2 ^ nat (bitlen ?n)"
    using hi by simp
  then have "(of_int (?n + 1) :: rat) \<le> of_int (2 ^ nat (bitlen ?n))"
    by (simp only: of_int_le_iff)
  moreover have "x < of_int (?n + 1)"
    by simp linarith
  moreover have "(of_int (2 ^ nat (bitlen ?n)) :: rat) = 2 powi (bitlen ?n)"
    using b by (simp add: power_int_def)
  ultimately have 2: "x < 2 powi (bitlen ?n)"
    by simp
  from 1 2 assms show ?thesis
    by (simp add: ilog2_def)
qed

lemma ilog2_lt1:
  assumes "0 < x" and "x < 1"
  shows "2 powi (ilog2 x) \<le> x \<and> x < 2 powi (ilog2 x + 1)"
proof -
  let ?c = "\<lceil>1 / x\<rceil>"
  let ?j = "bitlen (?c - 1)"
  from assms have inv: "1 < 1 / x"
    by simp
  then have c: "0 < ?c - 1"
    by (simp add: less_ceiling_iff)
  from bitlen_bounds [OF c]
  have lo: "2 ^ nat (?j - 1) \<le> ?c - 1" and hi: "?c - 1 < 2 ^ nat ?j"
    by simp_all
  from c have j: "1 \<le> ?j"
    by (simp add: bitlen_alt_def)
  have "1 / x \<le> of_int ?c"
    by simp
  also have "?c \<le> 2 ^ nat ?j"
    using hi by simp
  then have "(of_int ?c :: rat) \<le> of_int (2 ^ nat ?j)"
    by (simp only: of_int_le_iff)
  finally have "1 / x \<le> 2 ^ nat ?j"
    by simp
  then have "1 / 2 ^ nat ?j \<le> x"
    using assms by (simp add: field_simps)
  moreover have "(2::rat) powi (- ?j) = 1 / 2 ^ nat ?j"
    using j by (simp add: power_int_def field_simps)
  ultimately have 1: "2 powi (- ?j) \<le> x"
    by simp
  have "(of_int (2 ^ nat (?j - 1)) :: rat) \<le> of_int (?c - 1)"
    using lo by (simp only: of_int_le_iff)
  also have "of_int (?c - 1) < 1 / x"
    using ceiling_correct [of "1 / x"] by simp
  finally have "2 ^ nat (?j - 1) < 1 / x"
    by simp
  then have "x < 1 / 2 ^ nat (?j - 1)"
    using assms by (simp add: field_simps)
  moreover have "(2::rat) powi (- ?j + 1) = 1 / 2 ^ nat (?j - 1)"
    using j by (simp add: power_int_def field_simps nat_diff_distrib)
  ultimately have 2: "x < 2 powi (- ?j + 1)"
    by simp
  from 1 2 assms show ?thesis
    by (simp add: ilog2_def)
qed

lemma ilog2_bounds: "0 < x \<Longrightarrow> 2 powi (ilog2 x) \<le> x \<and> x < 2 powi (ilog2 x + 1)"
  using ilog2_ge1 [of x] ilog2_lt1 [of x] by (cases "1 \<le> x") auto

lemma ilog2_unique:
  assumes "0 < x" and "2 powi e \<le> x" and "x < 2 powi (e + 1)"
  shows "ilog2 x = e"
proof -
  from ilog2_bounds [OF assms(1)]
  have lo: "2 powi (ilog2 x) \<le> x" and hi: "x < 2 powi (ilog2 x + 1)"
    by simp_all
  have "e < ilog2 x + 1"
  proof (rule ccontr)
    assume "\<not> e < ilog2 x + 1"
    then have "(2::rat) powi (ilog2 x + 1) \<le> 2 powi e"
      by (intro power_int_increasing) simp_all
    with assms(2) hi show False
      by simp
  qed
  moreover have "ilog2 x < e + 1"
  proof (rule ccontr)
    assume "\<not> ilog2 x < e + 1"
    then have "(2::rat) powi (e + 1) \<le> 2 powi (ilog2 x)"
      by (intro power_int_increasing) simp_all
    with assms(3) lo show False
      by simp
  qed
  ultimately show ?thesis
    by simp
qed

lemma rd_eq:
  assumes "x \<noteq> 0" and "2 powi e \<le> \<bar>x\<bar>" and "\<bar>x\<bar> < 2 powi (e + 1)"
    and "u = 2 powi (max e (- 1022) - 52)"
    and "r = of_int (round_even (\<bar>x\<bar> / u)) * u"
  shows "rd x = (if 2 ^ 1024 \<le> r then (if 0 < x then PInf else NInf) else Fin (sgn x * r))"
proof -
  from assms(1) have "0 < \<bar>x\<bar>"
    by simp
  from ilog2_unique [OF this assms(2,3)] assms(1,4,5) show ?thesis
    by (simp add: rd_def Let_def)
qed

lemma rd_0: "rd 0 = Fin 0"
  by (simp add: rd_def)


lemma round_even_tie:
  assumes "x = of_int n + 1 / 2"
  shows "round_even x = (if even n then n else n + 1)"
proof -
  from assms have "\<lfloor>x\<rfloor> = n"
    by (simp add: floor_eq_iff)
  with assms show ?thesis
    by (simp add: round_even_def Let_def)
qed

lemma rd_exact:
  assumes "x = of_int m * 2 powi k" and "\<bar>m\<bar> < 2 ^ 53" and "- 1074 \<le> k"
    and "\<bar>x\<bar> < 2 ^ 1024"
  shows "rd x = Fin x"
proof (cases "x = 0")
  case True
  then show ?thesis by (simp add: rd_def)
next
  case False
  then have pos: "0 < \<bar>x\<bar>" by simp
  let ?e = "ilog2 \<bar>x\<bar>"
  let ?q = "max ?e (- 1022) - 52"
  from ilog2_bounds [OF pos] have lo: "2 powi ?e \<le> \<bar>x\<bar>"
    by simp
  have "\<bar>x\<bar> = of_int \<bar>m\<bar> * 2 powi k"
    using assms(1) by (simp add: abs_mult)
  also have "\<dots> < 2 ^ 53 * 2 powi k"
  proof -
    from assms(2) have "(of_int \<bar>m\<bar> :: rat) < of_int (2 ^ 53)"
      by (simp only: of_int_less_iff)
    then show ?thesis
      by (simp add: mult_strict_right_mono)
  qed
  also have "\<dots> = 2 powi (k + 53)"
    by (simp add: power_int_add)
  finally have "\<bar>x\<bar> < 2 powi (k + 53)" .
  with lo have "(2::rat) powi ?e < 2 powi (k + 53)"
    by simp
  have "?e < k + 53"
  proof (rule ccontr)
    assume "\<not> ?e < k + 53"
    then have "(2::rat) powi (k + 53) \<le> 2 powi ?e"
      by (intro power_int_increasing) simp_all
    with \<open>(2::rat) powi ?e < 2 powi (k + 53)\<close> show False
      by simp
  qed
  with assms(3) have q: "?q \<le> k"
    by simp
  then obtain j where j: "k = ?q + int j"
    by (metis zle_iff_zadd)
  have "\<bar>x\<bar> / 2 powi ?q = of_int \<bar>m\<bar> * 2 powi k / 2 powi ?q"
    using \<open>\<bar>x\<bar> = of_int \<bar>m\<bar> * 2 powi k\<close> by simp
  also have "\<dots> = of_int \<bar>m\<bar> * 2 ^ j"
    by (simp add: j power_int_add)
  also have "\<dots> = of_int (\<bar>m\<bar> * 2 ^ j)"
    by simp
  finally have "round_even (\<bar>x\<bar> / 2 powi ?q) = \<bar>m\<bar> * 2 ^ j"
    by (simp only: round_even_of_int)
  then have "of_int (round_even (\<bar>x\<bar> / 2 powi ?q)) * 2 powi ?q = (of_int \<bar>m\<bar> * 2 powi k :: rat)"
    by (simp add: j power_int_add)
  also have "\<dots> = \<bar>x\<bar>"
    using \<open>\<bar>x\<bar> = of_int \<bar>m\<bar> * 2 powi k\<close> by simp
  finally have r: "of_int (round_even (\<bar>x\<bar> / 2 powi ?q)) * 2 powi ?q = \<bar>x\<bar>" .
  have "sgn x * \<bar>x\<bar> = x"
    by (simp add: sgn_mult_abs)
  with False assms(4) r show ?thesis
    by (simp add: rd_def Let_def)
qed

lemma rd_of_int: "\<bar>n\<bar> < 2 ^ 53 \<Longrightarrow> rd (of_int n) = Fin (of_int n)"
proof -
  assume n: "\<bar>n\<bar> < 2 ^ 53"
  then have "(of_int \<bar>n\<bar> :: rat) < of_int (2 ^ 53)"
    by (simp only: of_int_less_iff)
  also have "\<dots> < 2 ^ 1024"
    by simp
  finally have "\<bar>of_int n :: rat\<bar> < 2 ^ 1024"
    by simp
  with n show ?thesis
    by (intro rd_exact [where m = n and k = 0]) simp_all
qed

lemma rd_numeral: "numeral n < (2::int) ^ 53 \<Longrightarrow> rd (numeral n) = Fin (numeral n)"
  using rd_of_int [of "numeral n"] by simp

lemma rd_neg_numeral: "numeral n < (2::int) ^ 53 \<Longrightarrow> rd (- numeral n) = Fin (- numeral n)"
  using rd_of_int [of "- numeral n"] by simp









section \<open>Properties of strings and truthiness\<close>

lemma utf16_eq_iff [simp]: "utf16 s = utf16 t \<longleftrightarrow> s = t"
  by (simp add: utf16_def inj_map_eq_map inj_of_char)

lemma utf16_Nil [simp]: "utf16 s = [] \<longleftrightarrow> s = []" "[] = utf16 s \<longleftrightarrow> s = []"
  by (auto simp: utf16_def)

lemma is_space_iff: "is_space c \<longleftrightarrow> c \<in> white_space"
  by (auto simp: is_space_def white_space_def)

lemma blank_iff: "blank s \<longleftrightarrow> (\<forall>c\<in>set s. is_space c)"
  by (auto simp: blank_def is_space_iff)

lemma trim_empty_iff: "trim s = [] \<longleftrightarrow> blank s"
proof
  assume "trim s = []"
  then have all: "\<forall>c\<in>set (dropWhile is_space s). is_space c"
    by (simp add: trim_def dropWhile_eq_Nil_conv)
  have "dropWhile is_space s = []"
  proof (rule ccontr)
    assume ne: "dropWhile is_space s \<noteq> []"
    then have "\<not> is_space (hd (dropWhile is_space s))"
      by (rule hd_dropWhile)
    moreover from ne have "hd (dropWhile is_space s) \<in> set (dropWhile is_space s)"
      by (rule hd_in_set)
    ultimately show False
      using all by blast
  qed
  then show "blank s"
    by (simp add: blank_iff dropWhile_eq_Nil_conv)
next
  assume "blank s"
  then have "dropWhile is_space s = []"
    by (simp add: blank_iff dropWhile_eq_Nil_conv)
  then show "trim s = []"
    unfolding trim_def by (simp only: rev.simps dropWhile.simps)
qed

lemma truthy_to_boolean: "truthy v = to_boolean v"
proof (cases v)
  case None
  then show ?thesis by (simp add: to_boolean_def)
next
  case (Some x)
  show ?thesis
  proof (cases x)
    case (JNum n)
    with Some show ?thesis
      by (cases n) (auto simp: to_boolean_def)
  qed (use Some in \<open>auto simp: to_boolean_def\<close>)
qed

section \<open>Properties of the pricing engine\<close>

lemma or_zero_Fin: "or_zero (Some (JNum (Fin r))) = JNum (Fin r)"
  by (simp add: or_zero_def)

lemma js_add_num: "js_add bi (JNum a) (JNum b) = JNum (fadd a b)"
  by (simp add: js_add_def)








lemma calculatePrice_numbers:
  assumes "map_of cfg (utf16 ''basePrice'') = Some (JNum (Fin b))"
    and "map_of cfg (utf16 ''packaging'') = Some (JObj pm)"
    and "map_of pm (packaging_name pkg) = Some (JNum (Fin s))"
    and "map_of cfg (utf16 ''embroidery'') = Some (JNum (Fin e))"
  shows "calculatePrice bi (Some (JObj cfg)) sz pkg emb =
           Inr (div100 (math_round (fmul
             (if to_boolean emb then fadd (fadd (Fin b) (Fin s)) (Fin e) else fadd (Fin b) (Fin s))
             (Fin 100))))"
  using assms by (simp add: calculatePrice_def or_zero_Fin js_add_num truthy_to_boolean)


lemma math_round_of_int: "math_round (Fin (of_int n)) = Fin (of_int n)"
proof -
  have "\<lfloor>(of_int n :: rat) + 1 / 2\<rfloor> = n"
    by (rule floor_unique) simp_all
  then show ?thesis
    by (simp only: math_round.simps)
qed

lemma math_round_numeral: "math_round (Fin (numeral n)) = Fin (numeral n)"
  using math_round_of_int [of "numeral n"] by (simp only: of_int_numeral)

lemma price_68: "div100 (math_round (fmul (fadd (fadd (Fin 45) (Fin 3)) (Fin 20)) (Fin 100))) = Fin 68"
  by (simp add: rd_numeral math_round_numeral del: math_round.simps)



lemma price_48: "div100 (math_round (fmul (fadd (Fin 45) (Fin 3)) (Fin 100))) = Fin 48"
  by (simp add: rd_numeral math_round_numeral del: math_round.simps)








lemma map_of_assign: "map_of (assign k v a) = (map_of a)(k \<mapsto> v)"
  by (induction a) (auto simp: fun_eq_iff)

lemma or_zero_None: "or_zero None = JNum (Fin 0)"
  by (simp add: or_zero_def)

lemma or_zero_0: "or_zero (Some (JNum (Fin 0))) = JNum (Fin 0)"
  by (simp add: or_zero_def)

lemma get_prop_present: "v \<noteq> JNull \<Longrightarrow> \<exists>r. get_prop (Some v) k = Inr r"
  by (cases v) simp_all

lemma packaging_name_neq [simp]:
  "utf16 ''basePrice'' \<noteq> utf16 ''packaging''" "utf16 ''embroidery'' \<noteq> utf16 ''packaging''"
  "utf16 ''basePrice'' \<noteq> utf16 ''embroidery''"
  by simp_all

text \<open>
  C9. For a config that is an object: when its packaging is absent or \<^verbatim>\<open>null\<close>, the price
  calculation throws a TypeError; otherwise it returns a number. A missing base price, a
  missing embroidery surcharge and a missing surcharge for the requested packaging count
  as 0: the result is the one for the config with that component set to 0.
\<close>

theorem calculatePrice_total:
  "(map_of cfg (utf16 ''packaging'') \<in> {None, Some JNull} \<longrightarrow>
      calculatePrice bi (Some (JObj cfg)) sz pkg emb = Inl TypeError)
   \<and> (map_of cfg (utf16 ''packaging'') \<notin> {None, Some JNull} \<longrightarrow>
      (\<exists>n. calculatePrice bi (Some (JObj cfg)) sz pkg emb = Inr n))
   \<and> (map_of cfg (utf16 ''basePrice'') = None \<longrightarrow>
      calculatePrice bi (Some (JObj cfg)) sz pkg emb
        = calculatePrice bi (Some (JObj (assign (utf16 ''basePrice'') (JNum (Fin 0)) cfg))) sz pkg emb)
   \<and> (map_of cfg (utf16 ''embroidery'') = None \<longrightarrow>
      calculatePrice bi (Some (JObj cfg)) sz pkg emb
        = calculatePrice bi (Some (JObj (assign (utf16 ''embroidery'') (JNum (Fin 0)) cfg))) sz pkg emb)
   \<and> (\<forall>pm. map_of cfg (utf16 ''packaging'') = Some (JObj pm) \<and> map_of pm (packaging_name pkg) = None \<longrightarrow>
      calculatePrice bi (Some (JObj cfg)) sz pkg emb
        = calculatePrice bi
            (Some (JObj (assign (utf16 ''packaging'')
                           (JObj (assign (packaging_name pkg) (JNum (Fin 0)) pm)) cfg)))
            sz pkg emb)"
proof (intro conjI impI allI)
  assume "map_of cfg (utf16 ''packaging'') \<in> {None, Some JNull}"
  then show "calculatePrice bi (Some (JObj cfg)) sz pkg emb = Inl TypeError"
    by (auto simp: calculatePrice_def)
next
  assume "map_of cfg (utf16 ''packaging'') \<notin> {None, Some JNull}"
  then obtain v where v: "map_of cfg (utf16 ''packaging'') = Some v" and "v \<noteq> JNull"
    by auto
  from get_prop_present [OF this(2)] obtain r where "get_prop (Some v) (packaging_name pkg) = Inr r"
    by blast
  with v show "\<exists>n. calculatePrice bi (Some (JObj cfg)) sz pkg emb = Inr n"
    by (simp add: calculatePrice_def Let_def)
next
  assume "map_of cfg (utf16 ''basePrice'') = None"
  then show "calculatePrice bi (Some (JObj cfg)) sz pkg emb
        = calculatePrice bi (Some (JObj (assign (utf16 ''basePrice'') (JNum (Fin 0)) cfg))) sz pkg emb"
    by (simp add: calculatePrice_def map_of_assign or_zero_None or_zero_0 Let_def
          split: sum.splits)
next
  assume "map_of cfg (utf16 ''embroidery'') = None"
  then show "calculatePrice bi (Some (JObj cfg)) sz pkg emb
        = calculatePrice bi (Some (JObj (assign (utf16 ''embroidery'') (JNum (Fin 0)) cfg))) sz pkg emb"
    by (simp add: calculatePrice_def map_of_assign or_zero_None or_zero_0 Let_def
          split: sum.splits)
next
  fix pm
  assume "map_of cfg (utf16 ''packaging'') = Some (JObj pm) \<and> map_of pm (packaging_name pkg) = None"
  then show "calculatePrice bi (Some (JObj cfg)) sz pkg emb
        = calculatePrice bi
            (Some (JObj (assign (utf16 ''packaging'')
                           (JObj (assign (packaging_name pkg) (JNum (Fin 0)) pm)) cfg)))
            sz pkg emb"
    by (simp add: calculatePrice_def map_of_assign or_zero_None or_zero_0 Let_def
          split: sum.splits)
qed

lemma price_20: "div100 (math_round (fmul (fadd (fadd (Fin 0) (Fin 0)) (Fin 20)) (Fin 100))) = Fin 20"
  by (simp add: rd_numeral rd_0 math_round_numeral del: math_round.simps)

lemma price_3: "div100 (math_round (fmul (fadd (Fin 0) (Fin 3)) (Fin 100))) = Fin 3"
  by (simp add: rd_numeral rd_0 math_round_numeral del: math_round.simps)

lemma price_45: "div100 (math_round (fmul (fadd (Fin 45) (Fin 0)) (Fin 100))) = Fin 45"
  by (simp add: rd_numeral rd_0 math_round_numeral del: math_round.simps)

theorem calculatePrice_total_witness:
  "calculatePrice sample_builtins (Some (JObj [(utf16 ''basePrice'', JNum (Fin 45))]))
     (utf16 ''M'') Basic None = Inl TypeError
   \<and> calculatePrice sample_builtins
       (Some (JObj [(utf16 ''basePrice'', JNum (Fin 45)), (utf16 ''packaging'', JNull)]))
       (utf16 ''M'') Basic None = Inl TypeError
   \<and> calculatePrice sample_builtins
       (Some (JObj [(utf16 ''packaging'', JNum (Fin 5)), (utf16 ''embroidery'', JNum (Fin 20))]))
       (utf16 ''M'') Basic (Some (JBool True)) = Inr (Fin 20)
   \<and> calculatePrice sample_builtins
       (Some (JObj [(utf16 ''packaging'', JObj [(utf16 ''basic'', JNum (Fin 3))])]))
       (utf16 ''M'') Basic (Some (JBool True)) = Inr (Fin 3)
   \<and> calculatePrice sample_builtins
       (Some (JObj [(utf16 ''basePrice'', JNum (Fin 45)), (utf16 ''packaging'', JObj [])]))
       (utf16 ''M'') Box None = Inr (Fin 45)"
proof -
  let ?c1 = "[(utf16 ''basePrice'', JNum (Fin 45))]"
  let ?c2 = "[(utf16 ''basePrice'', JNum (Fin 45)), (utf16 ''packaging'', JNull)]"
  let ?c3 = "[(utf16 ''packaging'', JNum (Fin 5)), (utf16 ''embroidery'', JNum (Fin 20))]"
  let ?c4 = "[(utf16 ''packaging'', JObj [(utf16 ''basic'', JNum (Fin 3))])]"
  let ?c5 = "[(utf16 ''basePrice'', JNum (Fin 45)), (utf16 ''packaging'', JObj [])]"
  have 1: "calculatePrice sample_builtins (Some (JObj ?c1)) (utf16 ''M'') Basic None = Inl TypeError"
    using calculatePrice_total [of ?c1 sample_builtins "utf16 ''M''" Basic None] by simp
  have 2: "calculatePrice sample_builtins (Some (JObj ?c2)) (utf16 ''M'') Basic None = Inl TypeError"
    using calculatePrice_total [of ?c2 sample_builtins "utf16 ''M''" Basic None] by simp
  have "calculatePrice sample_builtins (Some (JObj ?c3)) (utf16 ''M'') Basic (Some (JBool True))
          = calculatePrice sample_builtins
              (Some (JObj (assign (utf16 ''basePrice'') (JNum (Fin 0)) ?c3)))
              (utf16 ''M'') Basic (Some (JBool True))"
    using calculatePrice_total [of ?c3 sample_builtins "utf16 ''M''" Basic "Some (JBool True)",
        THEN conjunct2, THEN conjunct2, THEN conjunct1]
    by simp
  also have "\<dots> = Inr (Fin 20)"
    by (simp add: calculatePrice_def or_zero_def js_add_def price_20
          del: fadd.simps fmul.simps math_round.simps div100.simps)
  finally have 3: "calculatePrice sample_builtins (Some (JObj ?c3)) (utf16 ''M'') Basic
                     (Some (JBool True)) = Inr (Fin 20)" .
  have "calculatePrice sample_builtins (Some (JObj ?c4)) (utf16 ''M'') Basic (Some (JBool True))
          = calculatePrice sample_builtins
              (Some (JObj (assign (utf16 ''embroidery'') (JNum (Fin 0)) ?c4)))
              (utf16 ''M'') Basic (Some (JBool True))"
    using calculatePrice_total [of ?c4 sample_builtins "utf16 ''M''" Basic "Some (JBool True)",
        THEN conjunct2, THEN conjunct2, THEN conjunct2, THEN conjunct1]
    by simp
  also have "\<dots> = Inr (Fin 3)"
    by (simp add: calculatePrice_def or_zero_def js_add_def rd_numeral rd_0 math_round_numeral
          del: math_round.simps)
  finally have 4: "calculatePrice sample_builtins (Some (JObj ?c4)) (utf16 ''M'') Basic
                     (Some (JBool True)) = Inr (Fin 3)" .
  have "calculatePrice sample_builtins (Some (JObj ?c5)) (utf16 ''M'') Box None
          = calculatePrice sample_builtins
              (Some (JObj (assign (utf16 ''packaging'')
                             (JObj (assign (packaging_name Box) (JNum (Fin 0)) [])) ?c5)))
              (utf16 ''M'') Box None"
    using calculatePrice_total [of ?c5 sample_builtins "utf16 ''M''" Box None,
        THEN conjunct2, THEN conjunct2, THEN conjunct2, THEN conjunct2, rule_format, of "[]"]
    by simp
  also have "\<dots> = Inr (Fin 45)"
    by (simp add: calculatePrice_def or_zero_def js_add_def price_45
          del: fadd.simps fmul.simps math_round.simps div100.simps)
  finally have 5: "calculatePrice sample_builtins (Some (JObj ?c5)) (utf16 ''M'') Box None
                     = Inr (Fin 45)" .
  from 1 2 3 4 5 show ?thesis
    by (intro conjI)
qed

text \<open>
  C9, as stated, fails: a config object without packaging makes the calculation throw.
\<close>

theorem calculatePrice_no_packaging_counterexample:
  "calculatePrice sample_builtins
     (Some (JObj [(utf16 ''basePrice'', JNum (Fin 45)), (utf16 ''embroidery'', JNum (Fin 20))]))
     (utf16 ''M'') Basic None
   = Inl TypeError"
  by (simp add: calculatePrice_def)

section \<open>Properties of order creation\<close>

lemma js_includes_iff: "js_includes xs v \<longleftrightarrow> (\<exists>s\<in>set xs. v = Some (JStr s))"
  by (cases "(xs, v)" rule: js_includes.cases) auto

lemma customer_check:
  "\<not> truthy c \<or> not_string_or_blank c \<longleftrightarrow> \<not> (\<exists>s. c = Some (JStr s) \<and> \<not> blank s)"
proof (cases c)
  case None
  then show ?thesis by simp
next
  case (Some v)
  then show ?thesis
    by (cases v) (auto simp: trim_empty_iff blank_def)
qed

lemma size_check:
  "\<not> truthy v \<or> \<not> js_includes sizes v \<longleftrightarrow>
   v \<notin> {Some (JStr (utf16 ''M'')), Some (JStr (utf16 ''L'')), Some (JStr (utf16 ''XL'')),
         Some (JStr (utf16 ''2XL''))}"
  by (auto simp: js_includes_iff sizes_def)

lemma packaging_check:
  "\<not> truthy v \<or> \<not> js_includes validPackageTypes v \<longleftrightarrow>
   v \<notin> {Some (JStr (utf16 ''basic'')), Some (JStr (utf16 ''branded'')), Some (JStr (utf16 ''box''))}"
  by (auto simp: js_includes_iff validPackageTypes_def)

lemma validateOrderData_iff:
  "validateOrderData body = None \<longleftrightarrow> name_given body \<and> size_valid body \<and> packaging_valid body"
  unfolding validateOrderData_def Let_def customer_check size_check packaging_check
    name_given_def size_valid_def packaging_valid_def
  by simp

text \<open>
  C2. An order is accepted by validation exactly when the customer name is a string that is
  not blank, the size is one of M, L, XL, 2XL and the packaging is one of basic, branded,
  box. In every other case the creation of an order fails with InvalidOrder and the handle
  is returned as it was: no order is added, in memory or on disk.
\<close>

theorem create_rejects_invalid:
  "(validateOrderData body = None \<longleftrightarrow> name_given body \<and> size_valid body \<and> packaging_valid body)
   \<and> (\<not> name_given body \<or> \<not> size_valid body \<or> \<not> packaging_valid body \<longrightarrow>
        (\<exists>msg. post_orders bi d body uuid t1 t2 = (d, Inl (InvalidOrder msg))))"
proof (intro conjI impI)
  show "validateOrderData body = None \<longleftrightarrow> name_given body \<and> size_valid body \<and> packaging_valid body"
    by (rule validateOrderData_iff)
  assume "\<not> name_given body \<or> \<not> size_valid body \<or> \<not> packaging_valid body"
  then have "validateOrderData body \<noteq> None"
    by (simp only: validateOrderData_iff de_Morgan_conj)
  then obtain msg where "validateOrderData body = Some msg"
    by auto
  then show "\<exists>msg. post_orders bi d body uuid t1 t2 = (d, Inl (InvalidOrder msg))"
    by (simp add: post_orders_def)
qed

theorem create_rejects_invalid_witness:
  "post_orders sample_builtins default_db
     [(utf16 ''size'', JStr (utf16 ''M'')), (utf16 ''packaging'', JStr (utf16 ''basic''))]
     (utf16 ''id-1'') 0 0
     = (default_db, Inl (InvalidOrder (utf16 ''Customer name is required'')))
   \<and> post_orders sample_builtins default_db
     [(utf16 ''customer'', JNull), (utf16 ''size'', JStr (utf16 ''M'')),
      (utf16 ''packaging'', JStr (utf16 ''basic''))]
     (utf16 ''id-1'') 0 0
     = (default_db, Inl (InvalidOrder (utf16 ''Customer name is required'')))
   \<and> post_orders sample_builtins default_db
     [(utf16 ''customer'', JStr [9, 10, 11, 12, 13, 32, 160, 5760, 8192, 8193, 8194, 8195, 8196, 8197, 8198, 8199, 8200,
                                      8201, 8202, 8232, 8233, 8239, 8287, 12288, 65279]), (utf16 ''size'', JStr (utf16 ''M'')),
      (utf16 ''packaging'', JStr (utf16 ''basic''))]
     (utf16 ''id-1'') 0 0
     = (default_db, Inl (InvalidOrder (utf16 ''Customer name is required'')))
   \<and> post_orders sample_builtins default_db
     [(utf16 ''customer'', JStr (utf16 ''Ann'')), (utf16 ''size'', JStr (utf16 ''XXL'')),
      (utf16 ''packaging'', JStr (utf16 ''basic''))]
     (utf16 ''id-1'') 0 0
     = (default_db, Inl (InvalidOrder (utf16 ''Valid size is required (M, L, XL, 2XL)'')))
   \<and> post_orders sample_builtins default_db
     [(utf16 ''customer'', JStr (utf16 ''Ann'')), (utf16 ''size'', JStr (utf16 ''M'')),
      (utf16 ''packaging'', JStr (utf16 ''gift''))]
     (utf16 ''id-1'') 0 0
     = (default_db,
        Inl (InvalidOrder (utf16 ''Valid packaging type is required (basic, branded, box)'')))
   \<and> validateOrderData (sample_body None) = None"
proof -
  let ?b1 = "[(utf16 ''size'', JStr (utf16 ''M'')), (utf16 ''packaging'', JStr (utf16 ''basic''))]"
  let ?b2 = "[(utf16 ''customer'', JNull), (utf16 ''size'', JStr (utf16 ''M'')),
              (utf16 ''packaging'', JStr (utf16 ''basic''))]"
  let ?b3 = "[(utf16 ''customer'', JStr [9, 10, 11, 12, 13, 32, 160, 5760, 8192, 8193, 8194, 8195, 8196, 8197, 8198, 8199, 8200,
                                      8201, 8202, 8232, 8233, 8239, 8287, 12288, 65279]), (utf16 ''size'', JStr (utf16 ''M'')),
              (utf16 ''packaging'', JStr (utf16 ''basic''))]"
  let ?b4 = "[(utf16 ''customer'', JStr (utf16 ''Ann'')), (utf16 ''size'', JStr (utf16 ''XXL'')),
              (utf16 ''packaging'', JStr (utf16 ''basic''))]"
  let ?b5 = "[(utf16 ''customer'', JStr (utf16 ''Ann'')), (utf16 ''size'', JStr (utf16 ''M'')),
              (utf16 ''packaging'', JStr (utf16 ''gift''))]"
  have keys [simp]: "utf16 ''size'' \<noteq> utf16 ''customer''" "utf16 ''packaging'' \<noteq> utf16 ''customer''"
    "utf16 ''packaging'' \<noteq> utf16 ''size''" "utf16 ''customer'' \<noteq> utf16 ''size''"
    "utf16 ''customer'' \<noteq> utf16 ''packaging''" "utf16 ''size'' \<noteq> utf16 ''packaging''"
    by simp_all
  have "\<not> name_given ?b1"
    by (simp add: name_given_def)
  with create_rejects_invalid [of ?b1 sample_builtins default_db "utf16 ''id-1''" 0 0]
  have 1: "post_orders sample_builtins default_db ?b1 (utf16 ''id-1'') 0 0
             = (default_db, Inl (InvalidOrder (utf16 ''Customer name is required'')))"
    by (auto simp: post_orders_def validateOrderData_def)
  have "\<not> name_given ?b2"
    by (simp add: name_given_def)
  with create_rejects_invalid [of ?b2 sample_builtins default_db "utf16 ''id-1''" 0 0]
  have 2: "post_orders sample_builtins default_db ?b2 (utf16 ''id-1'') 0 0
             = (default_db, Inl (InvalidOrder (utf16 ''Customer name is required'')))"
    by (auto simp: post_orders_def validateOrderData_def)
  have "\<not> name_given ?b3"
    by (simp add: name_given_def blank_def white_space_def)
  with create_rejects_invalid [of ?b3 sample_builtins default_db "utf16 ''id-1''" 0 0]
  have 3: "post_orders sample_builtins default_db ?b3 (utf16 ''id-1'') 0 0
             = (default_db, Inl (InvalidOrder (utf16 ''Customer name is required'')))"
    by (auto simp: post_orders_def validateOrderData_def trim_def is_space_def)
  have "\<not> size_valid ?b4"
    by (simp add: size_valid_def)
  with create_rejects_invalid [of ?b4 sample_builtins default_db "utf16 ''id-1''" 0 0]
  have 4: "post_orders sample_builtins default_db ?b4 (utf16 ''id-1'') 0 0
             = (default_db, Inl (InvalidOrder (utf16 ''Valid size is required (M, L, XL, 2XL)'')))"
    by (auto simp: post_orders_def validateOrderData_def trim_def is_space_def utf16_def sizes_def)
  have "\<not> packaging_valid ?b5"
    by (simp add: packaging_valid_def)
  with create_rejects_invalid [of ?b5 sample_builtins default_db "utf16 ''id-1''" 0 0]
  have 5: "post_orders sample_builtins default_db ?b5 (utf16 ''id-1'') 0 0
             = (default_db,
                Inl (InvalidOrder (utf16 ''Valid packaging type is required (basic, branded, box)'')))"
    by (auto simp: post_orders_def validateOrderData_def trim_def is_space_def utf16_def sizes_def
          validPackageTypes_def)
  have "name_given (sample_body None) \<and> size_valid (sample_body None)
          \<and> packaging_valid (sample_body None)"
    by (simp add: sample_body_def name_given_def size_valid_def packaging_valid_def blank_def
          white_space_def utf16_def)
  with create_rejects_invalid [of "sample_body None" sample_builtins default_db "utf16 ''id-1''" 0 0]
  have 6: "validateOrderData (sample_body None) = None"
    by (simp only: simp_thms)
  from 1 2 3 4 5 6 show ?thesis
    by (intro conjI)
qed

lemma db_write_idem: "db_write (db_write d) = db_write d"
  by (cases "shape d") (simp_all add: db_write_def)

lemma data_db_write: "data (db_write d) = data d"
  by (simp add: db_write_def)

lemma post_orders_success:
  assumes "post_orders bi d body uuid t1 t2 = (d', Inr created)"
  shows "\<exists>d1 os. d' = db_write (d1\<lparr>data := (data d1)\<lparr>orders := Some (os @ [created])\<rparr>\<rparr>)
                 \<and> o_embroidery created = truthy (map_of body (utf16 ''embroidery''))"
  using assms
  by (auto simp: post_orders_def Let_def split: option.splits sum.splits prod.splits)

text \<open>
  C10. When the creation of an order succeeds, the embroidery field of the created order is
  the boolean coercion of the embroidery value of the request: false when the field is
  omitted or holds \<^verbatim>\<open>null\<close>, \<^verbatim>\<open>false\<close>, zero, NaN or the empty string, true for every
  other value. The created order is the last of the order list, and the list has been
  written to the file.
\<close>

theorem create_embroidery_coerced:
  assumes "post_orders bi d body uuid t1 t2 = (d', Inr created)"
  shows "o_embroidery created = to_boolean (map_of body (utf16 ''embroidery''))
         \<and> (\<exists>os. orders (data d') = Some (os @ [created]))
         \<and> db_write d' = d'"
proof -
  from post_orders_success [OF assms] obtain d1 os
    where d': "d' = db_write (d1\<lparr>data := (data d1)\<lparr>orders := Some (os @ [created])\<rparr>\<rparr>)"
      and emb: "o_embroidery created = truthy (map_of body (utf16 ''embroidery''))"
    by blast
  from emb have "o_embroidery created = to_boolean (map_of body (utf16 ''embroidery''))"
    by (simp only: truthy_to_boolean)
  moreover from d' have "orders (data d') = Some (os @ [created])"
    by (simp add: data_db_write)
  moreover from d' have "db_write d' = d'"
    by (simp only: db_write_idem)
  ultimately show ?thesis
    by blast
qed

lemma sample_price:
  "calculatePrice sample_builtins (Some defaultConfig) (utf16 ''M'') Basic emb
     = Inr (if to_boolean emb then Fin 68 else Fin 48)"
proof -
  let ?cfg = "[(utf16 ''basePrice'', JNum (Fin 45)), (utf16 ''packaging'', defaultPackaging),
               (utf16 ''embroidery'', JNum (Fin 20))]"
  let ?pm = "[(utf16 ''basic'', JNum (Fin 3)), (utf16 ''branded'', JNum (Fin 5)),
              (utf16 ''box'', JNum (Fin 7))]"
  have "calculatePrice sample_builtins (Some (JObj ?cfg)) (utf16 ''M'') Basic emb =
          Inr (div100 (math_round (fmul
            (if to_boolean emb then fadd (fadd (Fin 45) (Fin 3)) (Fin 20) else fadd (Fin 45) (Fin 3))
            (Fin 100))))"
    by (rule calculatePrice_numbers [where pm = ?pm]) (simp_all add: defaultPackaging_def)
  then show ?thesis
    by (simp add: defaultConfig_def price_68 price_48
          del: fadd.simps fmul.simps math_round.simps div100.simps)
qed

lemma default_db_fields:
  "db_read default_db = Inr default_db"
  "config (data default_db) = Some defaultConfig"
  "orders (data default_db) = Some []"
  by (simp_all add: db_read_def default_db_def defaultData_def)

lemma persist_default: "persist_json defaultConfig = defaultConfig"
  by (simp add: defaultConfig_def defaultPackaging_def)

lemma sample_run:
  "post_orders sample_builtins default_db (sample_body emb) (utf16 ''id-1'') 172800005 172800006
     = (\<lparr>shape = IsObject,
         data = defaultData\<lparr>orders := Some
           [(sample_order ''id-1'' (if to_boolean emb then 68 else 48) 172800006)
              \<lparr>o_embroidery := to_boolean emb\<rparr>]\<rparr>,
         disk = Clean (PObject (defaultData\<lparr>orders := Some
           [(sample_order ''id-1'' (if to_boolean emb then 68 else 48) 172800006)
              \<lparr>o_embroidery := to_boolean emb\<rparr>]\<rparr>))\<rparr>,
        Inr ((sample_order ''id-1'' (if to_boolean emb then 68 else 48) 172800006)
               \<lparr>o_embroidery := to_boolean emb\<rparr>))"
proof -
  let ?o = "(sample_order ''id-1'' (if to_boolean emb then 68 else 48) 172800006)
              \<lparr>o_embroidery := to_boolean emb\<rparr>"
  have valid: "validateOrderData (sample_body emb) = None"
    by (cases emb)
       (simp_all add: validateOrderData_iff sample_body_def name_given_def size_valid_def
          packaging_valid_def blank_def white_space_def utf16_def)
  have fields: "map_of (sample_body emb) (utf16 ''customer'') = Some (JStr (utf16 '' Ann ''))"
    "map_of (sample_body emb) (utf16 ''size'') = Some (JStr (utf16 ''M''))"
    "map_of (sample_body emb) (utf16 ''packaging'') = Some (JStr (utf16 ''basic''))"
    "map_of (sample_body emb) (utf16 ''embroidery'') = emb"
    by (cases emb; simp add: sample_body_def)+
  have trimmed: "trim (utf16 '' Ann '') = utf16 ''Ann''"
    by (simp add: trim_def utf16_def is_space_def)
  have new: "\<lparr>o_id = utf16 ''id-1'', o_customer = utf16 ''Ann'', o_size = utf16 ''M'',
               o_packaging = utf16 ''basic'', o_embroidery = to_boolean emb,
               o_price = Some (JNum (if to_boolean emb then Fin 68 else Fin 48)),
               o_date = 172800005 div 86400000, o_createdAt = Some 172800006\<rparr> = ?o"
    by (simp add: sample_order_def)
  have 1: "post_orders sample_builtins default_db (sample_body emb) (utf16 ''id-1'')
             172800005 172800006
           = (db_write (default_db\<lparr>data := (data default_db)\<lparr>orders := Some ([] @ [?o])\<rparr>\<rparr>), Inr ?o)"
    by (simp only: post_orders_def valid fields option.case string_of.simps prod.case
          packaging_type_of_def utf16_eq_iff refl if_True Let_def default_db_fields sum.case
          sample_price truthy_to_boolean trimmed new)
  have 2: "db_write (default_db\<lparr>data := (data default_db)\<lparr>orders := Some ([] @ [?o])\<rparr>\<rparr>)
           = \<lparr>shape = IsObject, data = defaultData\<lparr>orders := Some [?o]\<rparr>,
              disk = Clean (PObject (defaultData\<lparr>orders := Some [?o]\<rparr>))\<rparr>"
    by (simp add: db_write_def default_db_def persist_doc_def persist_order_def defaultData_def
          persist_default sample_order_def)
  from 1 2 show ?thesis
    by (simp only:)
qed

theorem create_embroidery_coerced_witness:
  "snd (post_orders sample_builtins default_db (sample_body None)
          (utf16 ''id-1'') 172800005 172800006)
     = Inr (sample_order ''id-1'' 48 172800006)
   \<and> snd (post_orders sample_builtins default_db (sample_body (Some (JBool False)))
          (utf16 ''id-1'') 172800005 172800006)
     = Inr (sample_order ''id-1'' 48 172800006)
   \<and> snd (post_orders sample_builtins default_db (sample_body (Some JNull))
          (utf16 ''id-1'') 172800005 172800006)
     = Inr (sample_order ''id-1'' 48 172800006)
   \<and> snd (post_orders sample_builtins default_db (sample_body (Some (JNum (Fin 0))))
          (utf16 ''id-1'') 172800005 172800006)
     = Inr (sample_order ''id-1'' 48 172800006)
   \<and> snd (post_orders sample_builtins default_db (sample_body (Some (JStr [])))
          (utf16 ''id-1'') 172800005 172800006)
     = Inr (sample_order ''id-1'' 48 172800006)
   \<and> snd (post_orders sample_builtins default_db (sample_body (Some (JStr (utf16 ''false''))))
          (utf16 ''id-1'') 172800005 172800006)
     = Inr ((sample_order ''id-1'' 68 172800006)\<lparr>o_embroidery := True\<rparr>)
   \<and> snd (post_orders sample_builtins default_db (sample_body (Some (JBool True)))
          (utf16 ''id-1'') 172800005 172800006)
     = Inr ((sample_order ''id-1'' 68 172800006)\<lparr>o_embroidery := True\<rparr>)
   \<and> snd (post_orders sample_builtins default_db (sample_body (Some (JArr [])))
          (utf16 ''id-1'') 172800005 172800006)
     = Inr ((sample_order ''id-1'' 68 172800006)\<lparr>o_embroidery := True\<rparr>)"
proof -
  have off: "snd (post_orders sample_builtins default_db (sample_body emb)
                    (utf16 ''id-1'') 172800005 172800006)
               = Inr (sample_order ''id-1'' 48 172800006)"
    if "\<not> to_boolean emb" for emb
  proof -
    let ?o = "(sample_order ''id-1'' (if to_boolean emb then 68 else 48) 172800006)
                \<lparr>o_embroidery := to_boolean emb\<rparr>"
    from create_embroidery_coerced [OF sample_run [of emb]]
    have "o_embroidery ?o = to_boolean (map_of (sample_body emb) (utf16 ''embroidery''))"
      by (rule conjunct1)
    with that have "?o = sample_order ''id-1'' 48 172800006"
      by (simp add: sample_order_def)
    then show ?thesis
      by (simp only: sample_run snd_conv)
  qed
  have on: "snd (post_orders sample_builtins default_db (sample_body emb)
                    (utf16 ''id-1'') 172800005 172800006)
               = Inr ((sample_order ''id-1'' 68 172800006)\<lparr>o_embroidery := True\<rparr>)"
    if "to_boolean emb" for emb
  proof -
    let ?o = "(sample_order ''id-1'' (if to_boolean emb then 68 else 48) 172800006)
                \<lparr>o_embroidery := to_boolean emb\<rparr>"
    from create_embroidery_coerced [OF sample_run [of emb]]
    have "o_embroidery ?o = to_boolean (map_of (sample_body emb) (utf16 ''embroidery''))"
      by (rule conjunct1)
    with that have "?o = (sample_order ''id-1'' 68 172800006)\<lparr>o_embroidery := True\<rparr>"
      by (simp add: sample_order_def)
    then show ?thesis
      by (simp only: sample_run snd_conv)
  qed
  show ?thesis
    by (intro conjI off on) (simp_all add: to_boolean_def)
qed

section \<open>Properties of order deletion\<close>

lemma findIndex_None_iff: "findIndex P xs = None \<longleftrightarrow> (\<forall>x\<in>set xs. \<not> P x)"
  by (induction xs) auto

lemma findIndex_Some:
  "findIndex P xs = Some i \<Longrightarrow>
   i < length xs \<and> P (xs ! i) \<and> (\<forall>y\<in>set (take i xs). \<not> P y)"
proof (induction xs arbitrary: i)
  case Nil
  then show ?case by simp
next
  case (Cons x xs)
  show ?case
  proof (cases "P x")
    case True
    with Cons.prems show ?thesis by simp
  next
    case False
    with Cons.prems obtain j where j: "findIndex P xs = Some j" "i = Suc j"
      by auto
    from Cons.IH [OF j(1)] False j(2) show ?thesis
      by simp
  qed
qed

lemma persist_sample_order: "persist_order (sample_order ident price created) = sample_order ident price created"
  by (simp add: persist_order_def sample_order_def)

lemma persist_default_orders:
  "persist_doc (defaultData\<lparr>orders := Some os\<rparr>) = defaultData\<lparr>orders := Some (map persist_order os)\<rparr>"
  by (simp add: persist_doc_def defaultData_def persist_default)

text \<open>
  C3. With the document on disk and an order id (the route gives a non-empty one): when no
  order has the id, deletion fails with NotFound and the document is unchanged, in memory
  and on disk; when some order has it, the first such order is removed and no other, the
  result is written to disk, and the removed order is returned.
\<close>

theorem delete_order_spec:
  assumes "disk d = Clean (PObject doc)" and "orders doc = Some os" and "ident \<noteq> []"
  shows "((\<forall>x\<in>set os. o_id x \<noteq> ident) \<longrightarrow>
            delete_order d ident = (d\<lparr>shape := IsObject, data := doc\<rparr>, Inl NotFound))
         \<and> ((\<exists>x\<in>set os. o_id x = ident) \<longrightarrow>
            (\<exists>before x after.
               os = before @ x # after \<and> o_id x = ident \<and> (\<forall>y\<in>set before. o_id y \<noteq> ident)
               \<and> delete_order d ident =
                   (\<lparr>shape = IsObject,
                     data = doc\<lparr>orders := Some (before @ after)\<rparr>,
                     disk = Clean (PObject (persist_doc (doc\<lparr>orders := Some (before @ after)\<rparr>)))\<rparr>,
                    Inr x)))"
proof (intro conjI impI)
  assume "\<forall>x\<in>set os. o_id x \<noteq> ident"
  then have "findIndex (\<lambda>order. o_id order = ident) os = None"
    by (simp add: findIndex_None_iff)
  with assms show "delete_order d ident = (d\<lparr>shape := IsObject, data := doc\<rparr>, Inl NotFound)"
    by (simp add: delete_order_def db_read_def)
next
  assume "\<exists>x\<in>set os. o_id x = ident"
  then obtain i where i: "findIndex (\<lambda>order. o_id order = ident) os = Some i"
    using findIndex_None_iff [of "\<lambda>order. o_id order = ident" os] by auto
  from findIndex_Some [OF i]
  have len: "i < length os" and hit: "o_id (os ! i) = ident"
    and first: "\<forall>y\<in>set (take i os). o_id y \<noteq> ident"
    by auto
  from len have split: "os = take i os @ os ! i # drop (Suc i) os"
    by (rule id_take_nth_drop)
  from assms i
  have "delete_order d ident =
          (\<lparr>shape = IsObject,
            data = doc\<lparr>orders := Some (take i os @ drop (Suc i) os)\<rparr>,
            disk = Clean (PObject (persist_doc (doc\<lparr>orders := Some (take i os @ drop (Suc i) os)\<rparr>)))\<rparr>,
           Inr (os ! i))"
    by (simp add: delete_order_def db_read_def db_write_def Let_def)
  with split hit first
  show "\<exists>before x after.
          os = before @ x # after \<and> o_id x = ident \<and> (\<forall>y\<in>set before. o_id y \<noteq> ident)
          \<and> delete_order d ident =
              (\<lparr>shape = IsObject,
                data = doc\<lparr>orders := Some (before @ after)\<rparr>,
                disk = Clean (PObject (persist_doc (doc\<lparr>orders := Some (before @ after)\<rparr>)))\<rparr>,
               Inr x)"
    by blast
qed

theorem delete_order_spec_witness:
  "delete_order
     \<lparr>shape = IsObject,
      data = defaultData\<lparr>orders := Some [sample_order ''a'' 48 1, sample_order ''b'' 50 2,
                                        sample_order ''a'' 52 3]\<rparr>,
      disk = Clean (PObject (defaultData\<lparr>orders := Some [sample_order ''a'' 48 1,
                           sample_order ''b'' 50 2, sample_order ''a'' 52 3]\<rparr>))\<rparr>
     (utf16 ''zzz'')
   = (\<lparr>shape = IsObject,
       data = defaultData\<lparr>orders := Some [sample_order ''a'' 48 1, sample_order ''b'' 50 2,
                                         sample_order ''a'' 52 3]\<rparr>,
       disk = Clean (PObject (defaultData\<lparr>orders := Some [sample_order ''a'' 48 1,
                            sample_order ''b'' 50 2, sample_order ''a'' 52 3]\<rparr>))\<rparr>,
      Inl NotFound)
   \<and> delete_order
     \<lparr>shape = IsObject,
      data = defaultData\<lparr>orders := Some [sample_order ''a'' 48 1, sample_order ''b'' 50 2,
                                        sample_order ''a'' 52 3]\<rparr>,
      disk = Clean (PObject (defaultData\<lparr>orders := Some [sample_order ''a'' 48 1,
                           sample_order ''b'' 50 2, sample_order ''a'' 52 3]\<rparr>))\<rparr>
     (utf16 ''a'')
   = (\<lparr>shape = IsObject,
       data = defaultData\<lparr>orders := Some [sample_order ''b'' 50 2, sample_order ''a'' 52 3]\<rparr>,
       disk = Clean (PObject (defaultData\<lparr>orders := Some [sample_order ''b'' 50 2,
                            sample_order ''a'' 52 3]\<rparr>))\<rparr>,
      Inr (sample_order ''a'' 48 1))"
proof -
  let ?os = "[sample_order ''a'' 48 1, sample_order ''b'' 50 2, sample_order ''a'' 52 3]"
  let ?doc = "defaultData\<lparr>orders := Some ?os\<rparr>"
  let ?d = "\<lparr>shape = IsObject, data = ?doc, disk = Clean (PObject ?doc)\<rparr>"
  have absent: "\<forall>x\<in>set ?os. o_id x \<noteq> utf16 ''zzz''"
    by (simp add: sample_order_def)
  have hyps: "disk ?d = Clean (PObject ?doc)" "orders ?doc = Some ?os" "utf16 ''zzz'' \<noteq> []"
    by simp_all
  have same: "?d\<lparr>shape := IsObject, data := ?doc\<rparr> = ?d"
    by simp
  from delete_order_spec [OF hyps]
  have "(\<forall>x\<in>set ?os. o_id x \<noteq> utf16 ''zzz'') \<longrightarrow>
          delete_order ?d (utf16 ''zzz'') = (?d\<lparr>shape := IsObject, data := ?doc\<rparr>, Inl NotFound)"
    by (rule conjunct1)
  with absent have 1: "delete_order ?d (utf16 ''zzz'') = (?d, Inl NotFound)"
    unfolding same by (rule rev_mp)
  have present: "\<exists>x\<in>set ?os. o_id x = utf16 ''a''"
    by (simp add: sample_order_def)
  have hyps': "disk ?d = Clean (PObject ?doc)" "orders ?doc = Some ?os" "utf16 ''a'' \<noteq> []"
    by simp_all
  from delete_order_spec [OF hyps']
  have "(\<exists>x\<in>set ?os. o_id x = utf16 ''a'') \<longrightarrow>
          (\<exists>before x after.
             ?os = before @ x # after \<and> o_id x = utf16 ''a'' \<and> (\<forall>y\<in>set before. o_id y \<noteq> utf16 ''a'')
             \<and> delete_order ?d (utf16 ''a'') =
                 (\<lparr>shape = IsObject, data = ?doc\<lparr>orders := Some (before @ after)\<rparr>,
                   disk = Clean (PObject (persist_doc (?doc\<lparr>orders := Some (before @ after)\<rparr>)))\<rparr>,
                  Inr x))"
    by (rule conjunct2)
  with present obtain before x after
    where split: "?os = before @ x # after"
      and first: "\<forall>y\<in>set before. o_id y \<noteq> utf16 ''a''"
      and run: "delete_order ?d (utf16 ''a'') =
                  (\<lparr>shape = IsObject, data = ?doc\<lparr>orders := Some (before @ after)\<rparr>,
                    disk = Clean (PObject (persist_doc (?doc\<lparr>orders := Some (before @ after)\<rparr>)))\<rparr>,
                   Inr x)"
    by blast
  have "before = []"
  proof (cases before)
    case Nil
    then show ?thesis .
  next
    case (Cons y ys)
    with split have "y = sample_order ''a'' 48 1"
      by simp
    with first Cons show ?thesis
      by (simp add: sample_order_def)
  qed
  with split have "x = sample_order ''a'' 48 1"
    and "after = [sample_order ''b'' 50 2, sample_order ''a'' 52 3]"
    by simp_all
  with run \<open>before = []\<close>
  have 2: "delete_order ?d (utf16 ''a'') =
             (\<lparr>shape = IsObject,
               data = defaultData\<lparr>orders := Some [sample_order ''b'' 50 2, sample_order ''a'' 52 3]\<rparr>,
               disk = Clean (PObject (defaultData\<lparr>orders := Some [sample_order ''b'' 50 2,
                                    sample_order ''a'' 52 3]\<rparr>))\<rparr>,
              Inr (sample_order ''a'' 48 1))"
    by (simp add: persist_default_orders persist_sample_order)
  from 1 2 show ?thesis
    by (rule conjI)
qed

section \<open>Properties of the config update\<close>

lemma bad_price_iff: "bad_price v \<longleftrightarrow> \<not> is_number v \<or> is_negative v"
proof (cases v)
  case (JNum n)
  then show ?thesis
    by (cases n) simp_all
qed simp_all

lemma check_packaging_iff:
  "(\<exists>msg. check_packaging es = Some msg) \<longleftrightarrow>
   list_ex (\<lambda>(k, v). k \<notin> {utf16 ''basic'', utf16 ''branded'', utf16 ''box''}
                        \<or> is_negative v \<or> \<not> is_number v) es"
  by (induction es rule: check_packaging.induct)
     (auto simp: bad_price_iff validPackageTypes_def)

lemma falsy_no_entries: "\<not> truthy (Some p) \<Longrightarrow> object_entries p = []"
  by (cases p) auto

lemma validateConfigData_iff: "(\<exists>msg. validateConfigData body = Some msg) \<longleftrightarrow> invalid_config body"
proof -
  have pk: "(\<exists>msg. (case map_of body (utf16 ''packaging'') of
                      None \<Rightarrow> None
                    | Some p \<Rightarrow> if truthy (map_of body (utf16 ''packaging''))
                                then check_packaging (object_entries p) else None) = Some msg)
            \<longleftrightarrow> (\<exists>msg. check_packaging (packaging_entries body) = Some msg)"
    by (auto simp: packaging_entries_def falsy_no_entries split: option.splits)
  show ?thesis
    unfolding invalid_config_def check_packaging_iff [symmetric] pk [symmetric]
    by (auto simp: validateConfigData_def Let_def bad_price_iff split: option.splits)
qed

text \<open>
  C5. The validation of a config update fails exactly under the conditions of the
  specification; the handler then answers InvalidConfig and returns the handle as it was,
  so the stored config is not modified. Under no other condition does it answer
  InvalidConfig.
\<close>

theorem config_validation_spec:
  "((\<exists>msg. validateConfigData body = Some msg) \<longleftrightarrow> invalid_config body)
   \<and> (invalid_config body \<longrightarrow> (\<exists>msg. post_config_update d body = (d, Inl (InvalidConfig msg))))
   \<and> (\<not> invalid_config body \<longrightarrow> (\<forall>msg. snd (post_config_update d body) \<noteq> Inl (InvalidConfig msg)))"
proof (intro conjI impI)
  show "(\<exists>msg. validateConfigData body = Some msg) \<longleftrightarrow> invalid_config body"
    by (rule validateConfigData_iff)
next
  assume "invalid_config body"
  then obtain msg where "validateConfigData body = Some msg"
    using validateConfigData_iff by blast
  then show "\<exists>msg. post_config_update d body = (d, Inl (InvalidConfig msg))"
    by (simp add: post_config_update_def)
next
  assume "\<not> invalid_config body"
  then have "validateConfigData body = None"
    using validateConfigData_iff [of body] by auto
  then show "\<forall>msg. snd (post_config_update d body) \<noteq> Inl (InvalidConfig msg)"
    by (auto simp: post_config_update_def Let_def split: sum.splits option.splits)
qed

theorem config_validation_spec_witness:
  "invalid_config [(utf16 ''packaging'', JObj [(utf16 ''gift'', JNum (Fin 1))])]
   \<and> (\<exists>msg. post_config_update default_db [(utf16 ''packaging'', JObj [(utf16 ''gift'', JNum (Fin 1))])]
              = (default_db, Inl (InvalidConfig msg)))
   \<and> invalid_config [(utf16 ''basePrice'', JStr (utf16 ''45''))]
   \<and> invalid_config [(utf16 ''embroidery'', JNum (Fin (- 1)))]
   \<and> invalid_config [(utf16 ''packaging'', JObj [(utf16 ''basic'', JNull)])]
   \<and> invalid_config [(utf16 ''packaging'', JStr (utf16 ''x''))]
   \<and> \<not> invalid_config [(utf16 ''packaging'', JObj [(utf16 ''basic'', JNum (Fin 10))])]
   \<and> validateConfigData [(utf16 ''packaging'', JObj [(utf16 ''basic'', JNum (Fin 10))])] = None"
  using
    config_validation_spec
      [of "[(utf16 ''packaging'', JObj [(utf16 ''gift'', JNum (Fin 1))])]" default_db]
    config_validation_spec
      [of "[(utf16 ''packaging'', JObj [(utf16 ''basic'', JNum (Fin 10))])]" default_db]
  by (simp add: invalid_config_def packaging_entries_def utf16_def upt_rec)

lemma map_of_spread:
  "distinct (map fst b) \<Longrightarrow> map_of (spread a b) = map_of a ++ map_of b"
proof (induction b arbitrary: a)
  case Nil
  then show ?case by simp
next
  case (Cons kv b)
  obtain k v where kv: "kv = (k, v)"
    by (cases kv)
  from Cons.prems kv have fresh: "k \<notin> dom (map_of b)" and rest: "distinct (map fst b)"
    by (auto simp: dom_map_of_conv_image_fst)
  have "map_of (spread a (kv # b)) = map_of (assign k v a) ++ map_of b"
    using Cons.IH [OF rest] kv by simp
  also have "\<dots> = (map_of a ++ map_of b)(k \<mapsto> v)"
    using fresh by (simp add: map_of_assign map_add_upd_left)
  also have "\<dots> = map_of a ++ map_of (kv # b)"
    using kv by simp
  finally show ?case .
qed

lemma falsy_packaging_entries:
  "\<not> truthy (map_of body (utf16 ''packaging'')) \<Longrightarrow> packaging_entries body = []"
  by (cases "map_of body (utf16 ''packaging'')") (simp_all add: packaging_entries_def falsy_no_entries)

lemma truthy_packaging_entries:
  "truthy (map_of body (utf16 ''packaging'')) \<Longrightarrow>
   spread_entries (map_of body (utf16 ''packaging'')) = packaging_entries body"
  by (cases "map_of body (utf16 ''packaging'')") (simp_all add: packaging_entries_def spread_entries_def)

text \<open>The config that the update handler computes from the prior config and the body.\<close>

lemma post_config_update_valid:
  assumes valid: "validateConfigData body = None"
    and disk: "disk d = Clean (PObject doc)" and cfg: "config doc = Some (JObj c)"
  shows "post_config_update d body =
           (let c1 = (case map_of body (utf16 ''basePrice'') of
                        None \<Rightarrow> c | Some v \<Rightarrow> assign (utf16 ''basePrice'') v c);
                c2 = (if truthy (map_of body (utf16 ''packaging''))
                      then assign (utf16 ''packaging'')
                             (JObj (spread (spread_entries (map_of c1 (utf16 ''packaging'')))
                                      (packaging_entries body))) c1
                      else c1);
                c3 = (case map_of body (utf16 ''embroidery'') of
                        None \<Rightarrow> c2 | Some v \<Rightarrow> assign (utf16 ''embroidery'') v c2)
            in (\<lparr>shape = IsObject, data = doc\<lparr>config := Some (JObj c3)\<rparr>,
                 disk = Clean (PObject (persist_doc (doc\<lparr>config := Some (JObj c3)\<rparr>)))\<rparr>,
                Inr (Some (JObj c3))))"
proof -
  have read: "db_read d = Inr (d\<lparr>shape := IsObject, data := doc\<rparr>)"
    using disk by (simp add: db_read_def)
  show ?thesis
    using valid cfg
    by (simp add: post_config_update_def read db_write_def Let_def truthy_packaging_entries
          split: option.splits)
qed

text \<open>
  C4. For a prior config and a valid partial update (a JSON object has each key once):
  the base price and the embroidery surcharge are replaced when the partial has them and
  kept otherwise; the packaging surcharges are merged key by key, a key that the partial
  does not mention keeping its prior surcharge; every other property of the config is
  kept. The merged config is written to disk and returned.
\<close>

theorem config_update_merges:
  assumes valid: "validateConfigData body = None"
    and disk: "disk d = Clean (PObject doc)" and cfg: "config doc = Some (JObj c)"
    and keys: "distinct (map fst (packaging_entries body))"
  shows "\<exists>c'. post_config_update d body =
               (\<lparr>shape = IsObject, data = doc\<lparr>config := Some (JObj c')\<rparr>,
                 disk = Clean (PObject (persist_doc (doc\<lparr>config := Some (JObj c')\<rparr>)))\<rparr>,
                Inr (Some (JObj c')))
          \<and> map_of c' (utf16 ''basePrice'') =
              (case map_of body (utf16 ''basePrice'') of
                 None \<Rightarrow> map_of c (utf16 ''basePrice'') | Some v \<Rightarrow> Some v)
          \<and> map_of c' (utf16 ''embroidery'') =
              (case map_of body (utf16 ''embroidery'') of
                 None \<Rightarrow> map_of c (utf16 ''embroidery'') | Some v \<Rightarrow> Some v)
          \<and> (\<forall>k. surcharges c' k = (case partial_packaging body k of
                                        None \<Rightarrow> surcharges c k | Some v \<Rightarrow> Some v))
          \<and> (\<forall>k. k \<notin> {utf16 ''basePrice'', utf16 ''packaging'', utf16 ''embroidery''} \<longrightarrow>
                 map_of c' k = map_of c k)"
proof -
  let ?es = "packaging_entries body"
  define c1 where "c1 = (case map_of body (utf16 ''basePrice'') of
                           None \<Rightarrow> c | Some v \<Rightarrow> assign (utf16 ''basePrice'') v c)"
  define c2 where "c2 = (if truthy (map_of body (utf16 ''packaging''))
                         then assign (utf16 ''packaging'')
                                (JObj (spread (spread_entries (map_of c1 (utf16 ''packaging''))) ?es)) c1
                         else c1)"
  define c3 where "c3 = (case map_of body (utf16 ''embroidery'') of
                           None \<Rightarrow> c2 | Some v \<Rightarrow> assign (utf16 ''embroidery'') v c2)"
  have run: "post_config_update d body =
               (\<lparr>shape = IsObject, data = doc\<lparr>config := Some (JObj c3)\<rparr>,
                 disk = Clean (PObject (persist_doc (doc\<lparr>config := Some (JObj c3)\<rparr>)))\<rparr>,
                Inr (Some (JObj c3)))"
    unfolding post_config_update_valid [OF valid disk cfg] c1_def c2_def c3_def Let_def ..
  have m1: "map_of c1 = (case map_of body (utf16 ''basePrice'') of
                           None \<Rightarrow> map_of c | Some v \<Rightarrow> (map_of c)(utf16 ''basePrice'' \<mapsto> v))"
    by (simp add: c1_def map_of_assign split: option.split)
  have old: "map_of c1 (utf16 ''packaging'') = map_of c (utf16 ''packaging'')"
    by (simp add: m1 split: option.split)
  have m2: "map_of c2 =
              (if truthy (map_of body (utf16 ''packaging''))
               then (map_of c1)(utf16 ''packaging'' \<mapsto>
                      JObj (spread (spread_entries (map_of c (utf16 ''packaging''))) ?es))
               else map_of c1)"
    by (simp add: c2_def map_of_assign old)
  have m3: "map_of c3 = (case map_of body (utf16 ''embroidery'') of
                           None \<Rightarrow> map_of c2 | Some v \<Rightarrow> (map_of c2)(utf16 ''embroidery'' \<mapsto> v))"
    by (simp add: c3_def map_of_assign split: option.split)
  have bp: "map_of c3 (utf16 ''basePrice'') =
              (case map_of body (utf16 ''basePrice'') of
                 None \<Rightarrow> map_of c (utf16 ''basePrice'') | Some v \<Rightarrow> Some v)"
    by (simp add: m3 m2 m1 split: option.split)
  have em: "map_of c3 (utf16 ''embroidery'') =
              (case map_of body (utf16 ''embroidery'') of
                 None \<Rightarrow> map_of c (utf16 ''embroidery'') | Some v \<Rightarrow> Some v)"
    by (simp add: m3 m2 m1 split: option.split)
  have pk: "map_of c3 (utf16 ''packaging'') =
              (if truthy (map_of body (utf16 ''packaging''))
               then Some (JObj (spread (spread_entries (map_of c (utf16 ''packaging''))) ?es))
               else map_of c (utf16 ''packaging''))"
    by (simp add: m3 m2 m1 split: option.split)
  have other: "map_of c3 k = map_of c k"
    if "k \<notin> {utf16 ''basePrice'', utf16 ''packaging'', utf16 ''embroidery''}" for k
    using that by (simp add: m3 m2 m1 split: option.split)
  have sur: "surcharges c3 k = (case partial_packaging body k of
                                  None \<Rightarrow> surcharges c k | Some v \<Rightarrow> Some v)" for k
  proof (cases "truthy (map_of body (utf16 ''packaging''))")
    case True
    with pk have "surcharges c3 = map_of (spread (spread_entries (map_of c (utf16 ''packaging''))) ?es)"
      by (simp add: surcharges_def spread_entries_def)
    also have "\<dots> = surcharges c ++ map_of ?es"
      using keys by (simp add: map_of_spread surcharges_def)
    finally show ?thesis
      by (simp add: partial_packaging_def map_add_def split: option.split)
  next
    case False
    with pk falsy_packaging_entries [OF False] show ?thesis
      by (simp add: surcharges_def partial_packaging_def)
  qed
  from run bp em sur other show ?thesis
    by blast
qed

theorem config_update_merges_witness:
  "\<exists>c'. post_config_update default_db
          [(utf16 ''packaging'', JObj [(utf16 ''basic'', JNum (Fin 10))])]
        = (\<lparr>shape = IsObject, data = defaultData\<lparr>config := Some (JObj c')\<rparr>,
            disk = Clean (PObject (persist_doc (defaultData\<lparr>config := Some (JObj c')\<rparr>)))\<rparr>,
           Inr (Some (JObj c')))
      \<and> map_of c' (utf16 ''basePrice'') = Some (JNum (Fin 45))
      \<and> map_of c' (utf16 ''embroidery'') = Some (JNum (Fin 20))
      \<and> surcharges c' (utf16 ''basic'') = Some (JNum (Fin 10))
      \<and> surcharges c' (utf16 ''branded'') = Some (JNum (Fin 5))
      \<and> surcharges c' (utf16 ''box'') = Some (JNum (Fin 7))"
proof -
  let ?body = "[(utf16 ''packaging'', JObj [(utf16 ''basic'', JNum (Fin 10))])]"
  let ?cfg = "[(utf16 ''basePrice'', JNum (Fin 45)), (utf16 ''packaging'', defaultPackaging),
               (utf16 ''embroidery'', JNum (Fin 20))]"
  have hyps: "validateConfigData ?body = None" "disk default_db = Clean (PObject defaultData)"
      "config defaultData = Some (JObj ?cfg)" "distinct (map fst (packaging_entries ?body))"
    by (simp_all add: validateConfigData_def validPackageTypes_def defaultData_def
          packaging_entries_def default_db_def defaultConfig_def)
  from config_update_merges [OF hyps]
  obtain c' where run: "post_config_update default_db ?body =
             (\<lparr>shape = IsObject, data = defaultData\<lparr>config := Some (JObj c')\<rparr>,
               disk = Clean (PObject (persist_doc (defaultData\<lparr>config := Some (JObj c')\<rparr>)))\<rparr>,
              Inr (Some (JObj c')))"
    and bp: "map_of c' (utf16 ''basePrice'') =
               (case map_of ?body (utf16 ''basePrice'') of
                  None \<Rightarrow> map_of ?cfg (utf16 ''basePrice'') | Some v \<Rightarrow> Some v)"
    and em: "map_of c' (utf16 ''embroidery'') =
               (case map_of ?body (utf16 ''embroidery'') of
                  None \<Rightarrow> map_of ?cfg (utf16 ''embroidery'') | Some v \<Rightarrow> Some v)"
    and pk: "\<And>k. surcharges c' k = (case partial_packaging ?body k of
                 None \<Rightarrow> surcharges ?cfg k | Some v \<Rightarrow> Some v)"
    by blast
  from bp em have "map_of c' (utf16 ''basePrice'') = Some (JNum (Fin 45))"
    and "map_of c' (utf16 ''embroidery'') = Some (JNum (Fin 20))"
    by simp_all
  moreover from pk [of "utf16 ''basic''"] pk [of "utf16 ''branded''"] pk [of "utf16 ''box''"]
  have "surcharges c' (utf16 ''basic'') = Some (JNum (Fin 10))"
    and "surcharges c' (utf16 ''branded'') = Some (JNum (Fin 5))"
    and "surcharges c' (utf16 ''box'') = Some (JNum (Fin 7))"
    by (simp_all add: partial_packaging_def packaging_entries_def surcharges_def
          defaultPackaging_def spread_entries_def)
  ultimately show ?thesis
    using run by blast
qed

section \<open>Properties of initialization\<close>

lemma spread_default_config:
  "spread (object_entries defaultConfig) (object_entries defaultConfig) = object_entries defaultConfig"
  by (simp add: defaultConfig_def)

lemma persist_defaultData: "persist_doc defaultData = defaultData"
  by (simp add: persist_doc_def defaultData_def persist_default)

lemma initDB_reset:
  assumes "initializeDbFile f = Inr (Clean (PObject defaultData))"
  shows "initDB f = Inr default_db"
proof -
  have pk: "map_of (object_entries defaultConfig) (utf16 ''packaging'') = Some defaultPackaging"
    by (simp add: defaultConfig_def)
  have tr: "truthy (Some defaultPackaging)" "truthy (Some defaultConfig)"
    by (simp_all add: defaultPackaging_def defaultConfig_def)
  have cfg: "JObj (object_entries defaultConfig) = defaultConfig"
    by (simp add: defaultConfig_def)
  show ?thesis
    by (simp add: initDB_def assms db_read_def db_write_def defaultData_def spread_entries_def
          spread_default_config pk tr cfg persist_doc_def persist_default default_db_def Let_def)
qed

text \<open>
  C8. When the file is missing, blank, not parseable, or parseable (as it is or after
  trimming) to a value that is not an object, initialization writes the default document
  to the file and completes with a handle that holds it. When the file cannot be read,
  initialization fails with the read error, whether the file can be written or not; when
  the file holds an object after trimming only, it is kept and initialization fails with
  a SyntaxError.
\<close>

theorem init_resets_bad_file:
  "(unusable f \<longrightarrow> initDB f = Inr default_db)
   \<and> initDB (Unreadable writable) = Inl IOError
   \<and> initDB (Padded (PObject doc)) = Inl SyntaxError"
proof (intro conjI impI)
  assume "unusable f"
  then have "initializeDbFile f = Inr (Clean (PObject defaultData))"
    unfolding unusable_def
    by (auto simp: initializeDbFile_def writeFileSync_def persist_defaultData)
  then show "initDB f = Inr default_db"
    by (rule initDB_reset)
next
  show "initDB (Unreadable writable) = Inl IOError"
    by (simp add: initDB_def initializeDbFile_def writeFileSync_def db_read_def)
next
  show "initDB (Padded (PObject doc)) = Inl SyntaxError"
    by (simp add: initDB_def initializeDbFile_def db_read_def)
qed

theorem init_resets_bad_file_witness:
  "initDB Missing = Inr default_db
   \<and> initDB Blank = Inr default_db
   \<and> initDB Corrupt = Inr default_db
   \<and> initDB (Clean PArray) = Inr default_db
   \<and> initDB (Clean PNull) = Inr default_db
   \<and> initDB (Padded (PPrimitive True)) = Inr default_db
   \<and> data default_db = defaultData
   \<and> disk default_db = Clean (PObject defaultData)"
  using init_resets_bad_file [of Missing] init_resets_bad_file [of Blank]
    init_resets_bad_file [of Corrupt] init_resets_bad_file [of "Clean PArray"]
    init_resets_bad_file [of "Clean PNull"] init_resets_bad_file [of "Padded (PPrimitive True)"]
  by (simp add: unusable_def default_db_def)

text \<open>
  C8, as stated, fails for a file that cannot be read: rewriting it does not make it
  readable, and the read of lowdb throws. It fails as well for a file in which a byte order
  mark precedes a JSON object.
\<close>

theorem init_unreadable_counterexample:
  "initDB (Unreadable True) = Inl IOError
   \<and> initDB (Unreadable False) = Inl IOError
   \<and> initDB (Padded (PObject defaultData)) = Inl SyntaxError"
  by (simp add: initDB_def initializeDbFile_def writeFileSync_def db_read_def)

section \<open>Properties of the packaging invariant\<close>

lemma spread_keeps_keys: "map_of a k \<noteq> None \<Longrightarrow> map_of (spread a b) k \<noteq> None"
  by (induction a b rule: spread.induct) (simp_all add: map_of_assign)

lemma map_of_persist:
  "map_of (map (\<lambda>(k, v). (k, persist_json v)) kvs) k = map_option persist_json (map_of kvs k)"
  by (induction kvs) auto

lemma has_all_keys_persist: "has_all_keys (Some (persist_json p)) = has_all_keys (Some p)"
proof (cases p)
  case (JNum n)
  then show ?thesis
    by (cases n) (simp_all add: has_all_keys_def)
next
  case (JObj pm)
  then show ?thesis
    by (simp add: has_all_keys_def map_of_persist)
qed (simp_all add: has_all_keys_def)

lemma has_all_keys_default: "has_all_keys (Some defaultPackaging)"
  by (simp add: has_all_keys_def defaultPackaging_def)

lemma has_all_keys_truthy: "has_all_keys v \<Longrightarrow> truthy v"
  by (auto simp: has_all_keys_def split: option.splits json.splits)

lemma has_all_keys_spread:
  "has_all_keys (Some (JObj pm)) \<Longrightarrow> has_all_keys (Some (JObj (spread pm es)))"
  using spread_keeps_keys [of pm _ es] by (auto simp: has_all_keys_def)

text \<open>The packaging value that a handle shows after a write.\<close>

lemma visible_after_write:
  assumes "shape d = IsObject" and "config (data d) = Some (JObj kvs)"
  shows "visible_packaging (db_write d) = map_option persist_json (map_of kvs (utf16 ''packaging''))"
    and "disk (db_write d) = Clean (PObject (persist_doc (data d)))"
    and "packaging_of (persist_doc (data d)) = map_option persist_json (map_of kvs (utf16 ''packaging''))"
  using assms
  by (simp_all add: visible_packaging_def get_config_def db_read_def db_write_def persist_doc_def
        map_of_persist packaging_of_def)

text \<open>The config that initialization builds from the persisted one.\<close>

lemma initDB_kept:
  assumes "distinct (map fst (persisted_config (Clean (PObject doc))))"
  shows "\<exists>d kvs. initDB (Clean (PObject doc)) = Inr (db_write d) \<and> shape d = IsObject
            \<and> config (data d) = Some (JObj kvs)
            \<and> map_of kvs (utf16 ''packaging'') =
                Some (case persisted_packaging (Clean (PObject doc)) of
                        None \<Rightarrow> defaultPackaging
                      | Some p \<Rightarrow> if truthy (Some p) then p else defaultPackaging)"
proof -
  let ?pc = "persisted_config (Clean (PObject doc))"
  let ?kvs = "spread (object_entries defaultConfig) ?pc"
  have pc: "spread_entries (if truthy (config doc) then config doc else Some (JObj [])) = ?pc"
    by (simp add: persisted_config_def spread_entries_def)
  have m: "map_of ?kvs = map_of (object_entries defaultConfig) ++ map_of ?pc"
    using assms by (rule map_of_spread)
  have pk: "map_of ?kvs (utf16 ''packaging'') =
              Some (case persisted_packaging (Clean (PObject doc)) of
                      None \<Rightarrow> defaultPackaging | Some p \<Rightarrow> p)"
    using m [THEN fun_cong, of "utf16 ''packaging''"]
    by (simp add: map_add_def persisted_packaging_def defaultConfig_def split: option.split)
  let ?doc = "\<lambda>kvs. \<lparr>orders = Some (case orders doc of Some os \<Rightarrow> os | None \<Rightarrow> []),
                     config = Some (JObj kvs),
                     settings = Some (case settings doc of Some s \<Rightarrow> s | None \<Rightarrow> [])\<rparr>"
  let ?d = "\<lambda>kvs. \<lparr>shape = IsObject, data = ?doc kvs, disk = Clean (PObject doc)\<rparr>"
  let ?raw = "spread (object_entries defaultConfig)
                (spread_entries (if truthy (config doc) then config doc else Some (JObj [])))"
  have "initDB (Clean (PObject doc)) =
               Inr (db_write (?d (if \<not> truthy (map_of ?raw (utf16 ''packaging''))
                                  then assign (utf16 ''packaging'') defaultPackaging ?raw
                                  else ?raw)))"
    by (cases doc) (simp add: initDB_def initializeDbFile_def db_read_def Let_def)
  then have run: "initDB (Clean (PObject doc)) =
               Inr (db_write (?d (if \<not> truthy (map_of ?kvs (utf16 ''packaging''))
                                  then assign (utf16 ''packaging'') defaultPackaging ?kvs
                                  else ?kvs)))"
    unfolding pc .
  show ?thesis
  proof (cases "truthy (map_of ?kvs (utf16 ''packaging''))")
    case True
    with pk have "map_of ?kvs (utf16 ''packaging'') =
                Some (case persisted_packaging (Clean (PObject doc)) of
                        None \<Rightarrow> defaultPackaging
                      | Some p \<Rightarrow> if truthy (Some p) then p else defaultPackaging)"
      by (simp split: option.splits)
    with run True show ?thesis
      by (intro exI [of _ "?d ?kvs"] exI [of _ ?kvs]) simp
  next
    case False
    with pk have "Some defaultPackaging =
                Some (case persisted_packaging (Clean (PObject doc)) of
                        None \<Rightarrow> defaultPackaging
                      | Some p \<Rightarrow> if truthy (Some p) then p else defaultPackaging)"
      by (simp add: defaultPackaging_def split: option.splits)
    with run False show ?thesis
      by (intro exI [of _ "?d (assign (utf16 ''packaging'') defaultPackaging ?kvs)"]
            exI [of _ "assign (utf16 ''packaging'') defaultPackaging ?kvs"])
         (simp add: map_of_assign)
  qed
qed

lemma initDB_cases:
  assumes "initDB f = Inr d0"
  shows "(initializeDbFile f = Inr (Clean (PObject defaultData)) \<and> persisted_config f = [])
         \<or> (\<exists>doc. f = Clean (PObject doc))"
proof (cases f)
  case (Unreadable w)
  with assms show ?thesis
    by (simp add: initDB_def initializeDbFile_def writeFileSync_def db_read_def split: if_splits)
next
  case (Padded v)
  with assms show ?thesis
    by (cases v)
       (simp_all add: initDB_def initializeDbFile_def writeFileSync_def db_read_def
          persist_defaultData persisted_config_def)
next
  case (Clean v)
  then show ?thesis
    by (cases v)
       (simp_all add: initializeDbFile_def writeFileSync_def persist_defaultData persisted_config_def)
qed (simp_all add: initializeDbFile_def writeFileSync_def persist_defaultData persisted_config_def)

lemma initDB_packaging:
  assumes init: "initDB f = Inr d0" and keys: "distinct (map fst (persisted_config f))"
  shows "\<exists>doc0. disk d0 = Clean (PObject doc0)
           \<and> packaging_of doc0 = visible_packaging d0
           \<and> visible_packaging d0 =
               Some (persist_json (case persisted_packaging f of
                                     None \<Rightarrow> defaultPackaging
                                   | Some p \<Rightarrow> if truthy (Some p) then p else defaultPackaging))"
proof -
  from initDB_cases [OF init]
  consider (reset) "initializeDbFile f = Inr (Clean (PObject defaultData))" "persisted_config f = []"
    | (kept) doc where "f = Clean (PObject doc)"
    by blast
  then show ?thesis
  proof cases
    case reset
    from initDB_reset [OF reset(1)] init have d0: "d0 = default_db"
      by simp
    have "visible_packaging default_db = Some defaultPackaging"
      by (simp add: visible_packaging_def get_config_def db_read_def default_db_def defaultData_def
            defaultConfig_def)
    moreover have "packaging_of defaultData = Some defaultPackaging"
      by (simp add: packaging_of_def defaultData_def defaultConfig_def)
    moreover have "persist_json defaultPackaging = defaultPackaging"
      by (simp add: defaultPackaging_def)
    ultimately show ?thesis
      using reset(2) d0 by (simp add: persisted_packaging_def default_db_def)
  next
    case kept
    from initDB_kept [of doc] keys kept obtain d kvs
      where run: "initDB f = Inr (db_write d)" and obj: "shape d = IsObject"
        and cfg: "config (data d) = Some (JObj kvs)"
        and pk: "map_of kvs (utf16 ''packaging'') =
                   Some (case persisted_packaging f of
                           None \<Rightarrow> defaultPackaging
                         | Some p \<Rightarrow> if truthy (Some p) then p else defaultPackaging)"
      by auto
    from run init have d0: "d0 = db_write d"
      by simp
    from visible_after_write [OF obj cfg] pk d0 show ?thesis
      by simp
  qed
qed

text \<open>
  C6. When initialization completes (a JSON object has each key once), the packaging value
  that readers get is the persisted packaging when that is truthy, and the default
  packaging otherwise, as the file holds it after the write; so it has all three packaging
  keys exactly when the persisted packaging is falsy or absent, or has all three. A config
  update, successful or not, keeps a packaging with all three keys fully populated.
\<close>

theorem packaging_populated:
  "(initDB f = Inr d0 \<and> distinct (map fst (persisted_config f)) \<longrightarrow>
      (\<exists>doc0. disk d0 = Clean (PObject doc0) \<and> packaging_of doc0 = visible_packaging d0)
      \<and> visible_packaging d0 =
          Some (persist_json (case persisted_packaging f of
                                None \<Rightarrow> defaultPackaging
                              | Some p \<Rightarrow> if truthy (Some p) then p else defaultPackaging))
      \<and> (has_all_keys (visible_packaging d0) \<longleftrightarrow>
           \<not> truthy (persisted_packaging f) \<or> has_all_keys (persisted_packaging f)))
   \<and> (disk d = Clean (PObject doc) \<and> has_all_keys (packaging_of doc)
        \<and> post_config_update d body = (d', r) \<longrightarrow>
      (\<exists>doc'. disk d' = Clean (PObject doc') \<and> has_all_keys (packaging_of doc')
         \<and> visible_packaging d' = packaging_of doc'))"
proof (intro conjI impI)
  assume a: "initDB f = Inr d0 \<and> distinct (map fst (persisted_config f))"
  then have init: "initDB f = Inr d0" and keys: "distinct (map fst (persisted_config f))"
    by simp_all
  from initDB_packaging [OF init keys] obtain doc0
    where disk: "disk d0 = Clean (PObject doc0)" and same: "packaging_of doc0 = visible_packaging d0"
      and vis: "visible_packaging d0 =
               Some (persist_json (case persisted_packaging f of
                                     None \<Rightarrow> defaultPackaging
                                   | Some p \<Rightarrow> if truthy (Some p) then p else defaultPackaging))"
    by blast
  from disk same show "\<exists>doc0. disk d0 = Clean (PObject doc0) \<and> packaging_of doc0 = visible_packaging d0"
    by blast
  from vis show "visible_packaging d0 =
          Some (persist_json (case persisted_packaging f of
                                None \<Rightarrow> defaultPackaging
                              | Some p \<Rightarrow> if truthy (Some p) then p else defaultPackaging))" .
  show "has_all_keys (visible_packaging d0) \<longleftrightarrow>
          \<not> truthy (persisted_packaging f) \<or> has_all_keys (persisted_packaging f)"
  proof (cases "persisted_packaging f")
    case None
    with vis show ?thesis
      by (simp add: has_all_keys_persist has_all_keys_default)
  next
    case (Some p)
    with vis has_all_keys_truthy [of "Some p"] show ?thesis
      by (auto simp: has_all_keys_persist has_all_keys_default)
  qed
next
  assume a: "disk d = Clean (PObject doc) \<and> has_all_keys (packaging_of doc)
               \<and> post_config_update d body = (d', r)"
  then have disk: "disk d = Clean (PObject doc)" and full: "has_all_keys (packaging_of doc)"
    and run: "post_config_update d body = (d', r)"
    by simp_all
  from full obtain c pm where cfg: "config doc = Some (JObj c)"
    and pk: "map_of c (utf16 ''packaging'') = Some (JObj pm)"
    and pm: "has_all_keys (Some (JObj pm))"
    by (auto simp: has_all_keys_def packaging_of_def split: option.splits json.splits)
  have read: "db_read d = Inr (d\<lparr>shape := IsObject, data := doc\<rparr>)"
    using disk by (simp add: db_read_def)
  have vis: "visible_packaging d = packaging_of doc"
    by (simp add: visible_packaging_def get_config_def read cfg packaging_of_def)
  show "\<exists>doc'. disk d' = Clean (PObject doc') \<and> has_all_keys (packaging_of doc')
          \<and> visible_packaging d' = packaging_of doc'"
  proof (cases "validateConfigData body")
    case (Some msg)
    with run have "d' = d"
      by (simp add: post_config_update_def)
    with disk full vis show ?thesis
      by blast
  next
    case None
    define c1 where "c1 = (case map_of body (utf16 ''basePrice'') of
                             None \<Rightarrow> c | Some v \<Rightarrow> assign (utf16 ''basePrice'') v c)"
    define c2 where "c2 = (if truthy (map_of body (utf16 ''packaging''))
                           then assign (utf16 ''packaging'')
                                  (JObj (spread (spread_entries (map_of c1 (utf16 ''packaging'')))
                                           (packaging_entries body))) c1
                           else c1)"
    define c3 where "c3 = (case map_of body (utf16 ''embroidery'') of
                             None \<Rightarrow> c2 | Some v \<Rightarrow> assign (utf16 ''embroidery'') v c2)"
    let ?d = "\<lparr>shape = IsObject, data = doc\<lparr>config := Some (JObj c3)\<rparr>, disk = disk d\<rparr>"
    have "post_config_update d body =
               (\<lparr>shape = IsObject, data = doc\<lparr>config := Some (JObj c3)\<rparr>,
                 disk = Clean (PObject (persist_doc (doc\<lparr>config := Some (JObj c3)\<rparr>)))\<rparr>,
                Inr (Some (JObj c3)))"
      unfolding post_config_update_valid [OF None disk cfg] c1_def c2_def c3_def Let_def ..
    with run have d': "d' = db_write ?d"
      by (simp add: db_write_def)
    have 1: "map_of c1 (utf16 ''packaging'') = Some (JObj pm)"
      by (simp add: c1_def map_of_assign pk split: option.split)
    have "\<exists>pm'. map_of c2 (utf16 ''packaging'') = Some (JObj pm') \<and> has_all_keys (Some (JObj pm'))"
      using pm by (simp add: c2_def map_of_assign 1 spread_entries_def has_all_keys_spread)
    then have "\<exists>pm'. map_of c3 (utf16 ''packaging'') = Some (JObj pm') \<and> has_all_keys (Some (JObj pm'))"
      by (simp add: c3_def map_of_assign split: option.split)
    then obtain pm' where 3: "map_of c3 (utf16 ''packaging'') = Some (JObj pm')"
      and full': "has_all_keys (Some (JObj pm'))"
      by blast
    have obj: "shape ?d = IsObject" and cfg': "config (data ?d) = Some (JObj c3)"
      by simp_all
    from visible_after_write [OF obj cfg'] 3 full' d'
    have "disk d' = Clean (PObject (persist_doc (data ?d)))"
      and "packaging_of (persist_doc (data ?d)) = Some (persist_json (JObj pm'))"
      and "visible_packaging d' = Some (persist_json (JObj pm'))"
      by simp_all
    moreover from full' have "has_all_keys (Some (persist_json (JObj pm')))"
      by (simp only: has_all_keys_persist)
    ultimately show ?thesis
      by (intro exI [of _ "persist_doc (data ?d)"]) simp
  qed
qed

theorem packaging_populated_witness:
  "visible_packaging default_db = Some defaultPackaging
   \<and> has_all_keys (visible_packaging default_db)
   \<and> initDB (Clean (PObject (defaultData\<lparr>config := Some (JObj [(utf16 ''packaging'', JNum (Fin 0))])\<rparr>)))
       = Inr default_db
   \<and> has_all_keys (visible_packaging (fst (post_config_update default_db
         [(utf16 ''packaging'', JObj [(utf16 ''basic'', JNum (Fin 10))])])))"
proof -
  let ?f = "Clean (PObject (defaultData\<lparr>config := Some (JObj [(utf16 ''packaging'', JNum (Fin 0))])\<rparr>))"
  let ?body = "[(utf16 ''packaging'', JObj [(utf16 ''basic'', JNum (Fin 10))])]"
  let ?d' = "fst (post_config_update default_db ?body)"
  let ?r = "snd (post_config_update default_db ?body)"
  have init: "initDB ?f = Inr default_db"
    by (simp add: initDB_def initializeDbFile_def db_read_def db_write_def defaultData_def
          spread_entries_def defaultConfig_def defaultPackaging_def persist_doc_def default_db_def
          Let_def)
  have keys: "distinct (map fst (persisted_config ?f))"
    by (simp add: persisted_config_def spread_entries_def)
  have falsy: "\<not> truthy (persisted_packaging ?f)"
    by (simp add: persisted_packaging_def persisted_config_def spread_entries_def)
  have pp: "persisted_packaging ?f = Some (JNum (Fin 0))"
    by (simp add: persisted_packaging_def persisted_config_def spread_entries_def)
  have same: "persist_json defaultPackaging = defaultPackaging"
    by (simp add: defaultPackaging_def)
  note inst = packaging_populated [of ?f default_db default_db defaultData ?body ?d' ?r]
  from inst init keys
  have "visible_packaging default_db =
          Some (persist_json (case persisted_packaging ?f of
                                None \<Rightarrow> defaultPackaging
                              | Some p \<Rightarrow> if truthy (Some p) then p else defaultPackaging))"
    and 2: "has_all_keys (visible_packaging default_db) \<longleftrightarrow>
              \<not> truthy (persisted_packaging ?f) \<or> has_all_keys (persisted_packaging ?f)"
    by blast+
  then have 1: "visible_packaging default_db = Some defaultPackaging"
    by (simp add: pp same)
  from 2 falsy have 3: "has_all_keys (visible_packaging default_db)"
    by simp
  have "disk default_db = Clean (PObject defaultData)"
    and "has_all_keys (packaging_of defaultData)"
    and "post_config_update default_db ?body = (?d', ?r)"
    by (simp_all add: default_db_def packaging_of_def defaultData_def defaultConfig_def
          has_all_keys_default)
  with inst
  have "\<exists>doc'. disk ?d' = Clean (PObject doc') \<and> has_all_keys (packaging_of doc')
          \<and> visible_packaging ?d' = packaging_of doc'"
    by blast
  then have 4: "has_all_keys (visible_packaging ?d')"
    by auto
  from 1 3 init 4 show ?thesis
    by (intro conjI)
qed

text \<open>
  C6, as stated, fails for a persisted packaging that lacks a key: the merge with the
  defaults is shallow, and readers get the packaging as persisted.
\<close>

theorem init_partial_packaging_counterexample:
  "initDB (Clean (PObject partial_doc))
     = Inr \<lparr>shape = IsObject, data = partial_doc, disk = Clean (PObject partial_doc)\<rparr>
   \<and> visible_packaging \<lparr>shape = IsObject, data = partial_doc, disk = Clean (PObject partial_doc)\<rparr>
       = Some (JObj [(utf16 ''basic'', JNum (Fin 3))])
   \<and> \<not> has_all_keys (Some (JObj [(utf16 ''basic'', JNum (Fin 3))]))"
  by (simp add: initDB_def initializeDbFile_def db_read_def db_write_def get_config_def
        visible_packaging_def partial_doc_def partial_config_def defaultConfig_def
        defaultPackaging_def spread_entries_def persist_doc_def has_all_keys_def Let_def)

section \<open>Properties of the statistics\<close>

lemma length_insert_by: "length (insert_by cmp x xs) = Suc (length xs)"
  by (induction xs) simp_all

lemma length_js_sort: "length (js_sort cmp xs) = length xs"
  by (induction xs) (simp_all add: length_insert_by)

lemma mset_insert_by: "mset (insert_by cmp x xs) = add_mset x (mset xs)"
  by (induction xs) simp_all

lemma mset_js_sort: "mset (js_sort cmp xs) = mset xs"
  by (induction xs) (simp_all add: mset_insert_by)

lemma set_insert_by: "set (insert_by cmp x xs) = insert x (set xs)"
  by (induction xs) auto

lemma sorted_insert_by:
  "sorted_wrt (\<lambda>a b. time_of b \<le> time_of a) xs \<Longrightarrow>
   sorted_wrt (\<lambda>a b. time_of b \<le> time_of a) (insert_by by_recency x xs)"
  by (induction xs) (auto simp: set_insert_by by_recency_def)

lemma sorted_js_sort: "sorted_wrt (\<lambda>a b. time_of b \<le> time_of a) (js_sort by_recency xs)"
  by (induction xs) (simp_all add: sorted_insert_by)

lemma stable_insert_by:
  "filter (\<lambda>y. time_of y = t) (insert_by by_recency x xs) = filter (\<lambda>y. time_of y = t) (x # xs)"
  by (induction xs) (auto simp: by_recency_def)

lemma stable_js_sort:
  "filter (\<lambda>y. time_of y = t) (js_sort by_recency xs) = filter (\<lambda>y. time_of y = t) xs"
  by (induction xs) (simp_all add: stable_insert_by)

lemma add_price:
  assumes "price_ok order"
  shows "js_add bi (JNum a) (or_zero (o_price order)) = JNum (fadd a (price_value order))"
proof (cases "o_price order")
  case None
  then show ?thesis
    by (simp add: or_zero_def price_value_def js_add_def)
next
  case (Some v)
  show ?thesis
  proof (cases v)
    case (JNum n)
    with Some show ?thesis
      by (cases n) (simp_all add: or_zero_def price_value_def js_add_def)
  qed (use Some assms in \<open>simp_all add: or_zero_def price_value_def js_add_def price_ok_def\<close>)
qed

lemma fold_revenue:
  "\<forall>order\<in>set os. price_ok order \<Longrightarrow>
   fold (\<lambda>order sum. js_add bi sum (or_zero (o_price order))) os (JNum a)
     = JNum (foldl fadd a (map price_value os))"
  by (induction os arbitrary: a) (simp_all add: add_price)

text \<open>
  C7. For a persisted list of N orders whose prices are numbers, \<^verbatim>\<open>null\<close> or absent, the
  statistics give the total N, the revenue as the prices added from left to right in
  double arithmetic, the counts per size and per packaging, the embroidery count, and as
  recent orders the first min(N, 5) of the orders sorted by descending creation time (the
  creation timestamp, or the creation date when there is no timestamp), orders of equal
  time keeping their insertion order. Nothing is written.
\<close>

theorem stats_spec:
  assumes "disk d = Clean (PObject doc)" and "orders doc = Some os"
    and "\<forall>order\<in>set os. price_ok order"
  shows "\<exists>d' st. get_stats bi d = (d', Inr st) \<and> disk d' = disk d
           \<and> totalOrders st = length os
           \<and> totalRevenue st = JNum (sum_left (map price_value os))
           \<and> sizeBreakdown st = map (\<lambda>s. (s, length (filter (\<lambda>x. o_size x = s) os))) sizes
           \<and> packagingBreakdown st =
               map (\<lambda>p. (p, length (filter (\<lambda>x. o_packaging x = p) os))) validPackageTypes
           \<and> embroideryCount st = length (filter o_embroidery os)
           \<and> length (recentOrders st) = min (length os) 5
           \<and> (\<exists>sorted_os.
                 recentOrders st = take 5 sorted_os
                 \<and> mset sorted_os = mset os
                 \<and> sorted_wrt (\<lambda>a b. time_of b \<le> time_of a) sorted_os
                 \<and> (\<forall>t. filter (\<lambda>x. time_of x = t) sorted_os = filter (\<lambda>x. time_of x = t) os))"
proof -
  let ?sorted = "js_sort by_recency os"
  let ?st = "\<lparr>totalOrders = length os,
              totalRevenue =
                fold (\<lambda>order sum. js_add bi sum (or_zero (o_price order))) os (JNum (Fin 0)),
              sizeBreakdown =
                [(utf16 ''M'', length (filter (\<lambda>order. o_size order = utf16 ''M'') os)),
                 (utf16 ''L'', length (filter (\<lambda>order. o_size order = utf16 ''L'') os)),
                 (utf16 ''XL'', length (filter (\<lambda>order. o_size order = utf16 ''XL'') os)),
                 (utf16 ''2XL'', length (filter (\<lambda>order. o_size order = utf16 ''2XL'') os))],
              packagingBreakdown =
                [(utf16 ''basic'', length (filter (\<lambda>order. o_packaging order = utf16 ''basic'') os)),
                 (utf16 ''branded'', length (filter (\<lambda>order. o_packaging order = utf16 ''branded'') os)),
                 (utf16 ''box'', length (filter (\<lambda>order. o_packaging order = utf16 ''box'') os))],
              embroideryCount = length (filter o_embroidery os),
              recentOrders = take 5 ?sorted\<rparr>"
  have run: "get_stats bi d = (d\<lparr>shape := IsObject, data := doc\<lparr>orders := Some ?sorted\<rparr>\<rparr>, Inr ?st)"
    using assms(1,2) by (simp add: get_stats_def db_read_def Let_def)
  have sorted: "mset ?sorted = mset os \<and> sorted_wrt (\<lambda>a b. time_of b \<le> time_of a) ?sorted
                \<and> (\<forall>t. filter (\<lambda>x. time_of x = t) ?sorted = filter (\<lambda>x. time_of x = t) os)"
    by (simp add: mset_js_sort sorted_js_sort stable_js_sort)
  have "totalRevenue ?st = JNum (sum_left (map price_value os))"
    using assms(3) by (simp add: fold_revenue sum_left_def)
  moreover have "length (recentOrders ?st) = min (length os) 5"
    by (simp add: length_js_sort)
  moreover have "sizeBreakdown ?st = map (\<lambda>s. (s, length (filter (\<lambda>x. o_size x = s) os))) sizes"
    and "packagingBreakdown ?st =
           map (\<lambda>p. (p, length (filter (\<lambda>x. o_packaging x = p) os))) validPackageTypes"
    by (simp_all add: sizes_def validPackageTypes_def)
  moreover have "totalOrders ?st = length os" and "embroideryCount ?st = length (filter o_embroidery os)"
    and "recentOrders ?st = take 5 ?sorted"
    by simp_all
  moreover have "disk (d\<lparr>shape := IsObject, data := doc\<lparr>orders := Some ?sorted\<rparr>\<rparr>) = disk d"
    by simp
  ultimately show ?thesis
    using run sorted by blast
qed

lemma rd_tenth:
  "rd (3602879701896397 / 36028797018963968) = Fin (3602879701896397 / 36028797018963968)"
  by (rule rd_exact [where m = 3602879701896397 and k = "- 55"]) (simp_all add: power_int_minus)

lemma rd_three_tenths:
  "rd (3602879701896397 / 36028797018963968 + 3602879701896397 / 18014398509481984)
     = Fin (1351079888211149 / 4503599627370496)"
  by (rule rd_eq [where e = "- 2" and u = "2 powi (- 54)"
        and r = "1351079888211149 / 4503599627370496", THEN trans])
     (simp_all add: power_int_minus round_even_tie [where n = 5404319552844595])

theorem stats_spec_witness:
  "(\<exists>d' st.
     get_stats sample_builtins
       \<lparr>shape = IsObject, data = defaultData,
        disk = Clean (PObject (defaultData\<lparr>orders := Some
                 [sample_order ''a'' 48 5, sample_order ''b'' 50 5, sample_order ''c'' 52 9,
                  (sample_order ''d'' 0 1)\<lparr>o_price := Some JNull\<rparr>]\<rparr>))\<rparr>
     = (d', Inr st)
     \<and> totalOrders st = 4 \<and> totalRevenue st = JNum (Fin 150) \<and> length (recentOrders st) = 4
     \<and> recentOrders st = [sample_order ''c'' 52 9, sample_order ''a'' 48 5, sample_order ''b'' 50 5,
                           (sample_order ''d'' 0 1)\<lparr>o_price := Some JNull\<rparr>])
   \<and> (\<exists>d' st.
     get_stats sample_builtins
       \<lparr>shape = IsObject, data = defaultData,
        disk = Clean (PObject (defaultData\<lparr>orders := Some
                 [sample_order ''a'' (3602879701896397 / 36028797018963968) 5,
                  sample_order ''b'' (3602879701896397 / 18014398509481984) 6]\<rparr>))\<rparr>
     = (d', Inr st)
     \<and> totalRevenue st = JNum (Fin (1351079888211149 / 4503599627370496)))"
proof -
  let ?os = "[sample_order ''a'' 48 5, sample_order ''b'' 50 5, sample_order ''c'' 52 9,
              (sample_order ''d'' 0 1)\<lparr>o_price := Some JNull\<rparr>]"
  let ?doc = "defaultData\<lparr>orders := Some ?os\<rparr>"
  let ?d = "\<lparr>shape = IsObject, data = defaultData, disk = Clean (PObject ?doc)\<rparr>"
  have hyps: "disk ?d = Clean (PObject ?doc)" "orders ?doc = Some ?os"
    "\<forall>order\<in>set ?os. price_ok order"
    by (simp_all add: price_ok_def sample_order_def)
  from stats_spec [OF hyps, of sample_builtins]
  obtain d' st sorted_os where run: "get_stats sample_builtins ?d = (d', Inr st)"
    and total: "totalOrders st = length ?os"
    and revenue: "totalRevenue st = JNum (sum_left (map price_value ?os))"
    and len: "length (recentOrders st) = min (length ?os) 5"
    by blast
  have "recentOrders (case snd (get_stats sample_builtins ?d) of Inr s \<Rightarrow> s)
          = [sample_order ''c'' 52 9, sample_order ''a'' 48 5, sample_order ''b'' 50 5,
             (sample_order ''d'' 0 1)\<lparr>o_price := Some JNull\<rparr>]"
    by (simp add: get_stats_def db_read_def Let_def by_recency_def time_of_def sample_order_def)
  with run have "recentOrders st
          = [sample_order ''c'' 52 9, sample_order ''a'' 48 5, sample_order ''b'' 50 5,
             (sample_order ''d'' 0 1)\<lparr>o_price := Some JNull\<rparr>]"
    by simp
  moreover from total have "totalOrders st = 4"
    by simp
  moreover from revenue have "totalRevenue st = JNum (Fin 150)"
    by (simp add: sample_order_def sum_left_def price_value_def rd_numeral)
  moreover from len have "length (recentOrders st) = 4"
    by simp
  ultimately have 1: "\<exists>d' st. get_stats sample_builtins ?d = (d', Inr st)
     \<and> totalOrders st = 4 \<and> totalRevenue st = JNum (Fin 150) \<and> length (recentOrders st) = 4
     \<and> recentOrders st = [sample_order ''c'' 52 9, sample_order ''a'' 48 5, sample_order ''b'' 50 5,
                           (sample_order ''d'' 0 1)\<lparr>o_price := Some JNull\<rparr>]"
    using run by blast
  let ?os2 = "[sample_order ''a'' (3602879701896397 / 36028797018963968) 5,
               sample_order ''b'' (3602879701896397 / 18014398509481984) 6]"
  let ?doc2 = "defaultData\<lparr>orders := Some ?os2\<rparr>"
  let ?d2 = "\<lparr>shape = IsObject, data = defaultData, disk = Clean (PObject ?doc2)\<rparr>"
  have hyps2: "disk ?d2 = Clean (PObject ?doc2)" "orders ?doc2 = Some ?os2"
    "\<forall>order\<in>set ?os2. price_ok order"
    by (simp_all add: price_ok_def sample_order_def)
  from stats_spec [OF hyps2, of sample_builtins]
  obtain d2' st2 where run2: "get_stats sample_builtins ?d2 = (d2', Inr st2)"
    and revenue2: "totalRevenue st2 = JNum (sum_left (map price_value ?os2))"
    by blast
  have "sum_left (map price_value ?os2)
          = fadd (fadd (Fin 0) (Fin (3602879701896397 / 36028797018963968)))
              (Fin (3602879701896397 / 18014398509481984))"
    by (simp add: sample_order_def sum_left_def price_value_def del: fadd.simps)
  also have "\<dots> = Fin (1351079888211149 / 4503599627370496)"
    by (simp only: fadd.simps add_0_left rd_tenth rd_three_tenths)
  finally have "totalRevenue st2 = JNum (Fin (1351079888211149 / 4503599627370496))"
    using revenue2 by simp
  with run2 have 2: "\<exists>d' st. get_stats sample_builtins ?d2 = (d', Inr st)
     \<and> totalRevenue st = JNum (Fin (1351079888211149 / 4503599627370496))"
    by blast
  from 1 2 show ?thesis
    by (rule conjI)
qed

text \<open>
  C7, as stated, fails for two orders of equal creation time: they come out in insertion
  order, not in the reverse of it.
\<close>

theorem recent_orders_ties_counterexample:
  "map_sum id recentOrders
     (snd (get_stats sample_builtins
        \<lparr>shape = IsObject, data = defaultData,
         disk = Clean (PObject (defaultData\<lparr>orders := Some [sample_order ''a'' 48 5,
                                  sample_order ''b'' 50 5]\<rparr>))\<rparr>))
   = Inr [sample_order ''a'' 48 5, sample_order ''b'' 50 5]
   \<and> recent_spec [sample_order ''a'' 48 5, sample_order ''b'' 50 5]
       = [sample_order ''b'' 50 5, sample_order ''a'' 48 5]
   \<and> sample_order ''a'' 48 5 \<noteq> sample_order ''b'' 50 5"
  by (simp add: get_stats_def db_read_def Let_def by_recency_def time_of_def sample_order_def
        recent_spec_def)

end
